theory Spec2Isabelle
  imports Main "HOL-Library.Sublist"
begin

section \<open>The document validation pipeline of transitions/validation.js\<close>

text \<open>
  A shallow embedding of \<^verbatim>\<open>shared-libs/transitions/src/lib/validation.js\<close>.
  The grammar engine (pupil), the datastore, the message lookup, the clock
  (moment) and the string functions of the platform are outside that file:
  they enter the model as parameters.
  Control flow written with callbacks is modelled by the value handed to the
  callback; every datastore request and every validator invocation is recorded
  in an event list, so that "is never invoked" and "issues no query" are
  statements about that list.
\<close>

subsection \<open>JavaScript values and strings\<close>

text \<open>
  Field values of a document: JSON scalars, with \<open>JObject\<close> standing for a
  nested plain object. Numbers are the whole numbers that \<open>String\<close> prints
  digit by digit (below \<open>1e21\<close> in magnitude); a number with a fractional
  part prints with a dot and so fails every digit test below just as
  \<open>JObject\<close> does. Arrays are not modelled.
\<close>

datatype jsval = JStr string | JNum int | JBool bool | JNull | JObject

text \<open>A number that may be \<open>NaN\<close>.\<close>

datatype jsnum = Num int | NaN

type_synonym attributes = "string \<rightharpoonup> jsval"

definition digit_chars :: string where
  "digit_chars = ''0123456789''"

definition is_digit :: "char \<Rightarrow> bool" where
  "is_digit c = (c \<in> set digit_chars)"

text \<open>Decimal rendering of a natural number, as \<open>String(n)\<close> prints it.\<close>

function show_nat :: "nat \<Rightarrow> string" where
  "show_nat n =
     (if n < 10 then [digit_chars ! n]
      else show_nat (n div 10) @ [digit_chars ! (n mod 10)])"
  by pat_completeness auto
termination
  by (relation "measure id") auto

declare show_nat.simps [simp del]

definition show_int :: "int \<Rightarrow> string" where
  "show_int i = (if i < 0 then CHR ''-'' # show_nat (nat (- i)) else show_nat (nat i))"

text \<open>\<open>String(v)\<close>, the conversion a template literal and \<open>RegExp.test\<close> apply.\<close>

fun js_String :: "jsval \<Rightarrow> string" where
  "js_String (JStr s) = s"
| "js_String (JNum n) = show_int n"
| "js_String (JBool b) = (if b then ''true'' else ''false'')"
| "js_String JNull = ''null''"
| "js_String JObject = ''[object Object]''"

text \<open>The value of a string of decimal digits (\<open>Number(s)\<close> on such a string).\<close>

definition digit_val :: "char \<Rightarrow> nat" where
  "digit_val c = of_char c - 48"

definition dec :: "string \<Rightarrow> nat" where
  "dec s = foldl (\<lambda>a c. 10 * a + digit_val c) 0 s"

text \<open>
  Lower-casing of the ASCII letters, every other byte left as it is. It is
  used by the concrete platform below only, on ASCII strings, where it is
  what \<open>String.prototype.toLowerCase\<close> does.
\<close>

definition lower_char :: "char \<Rightarrow> char" where
  "lower_char c =
     (case map_of (zip ''ABCDEFGHIJKLMNOPQRSTUVWXYZ'' ''abcdefghijklmnopqrstuvwxyz'') c of
        None \<Rightarrow> c
      | Some l \<Rightarrow> l)"

definition lower_ascii :: "string \<Rightarrow> string" where
  "lower_ascii s = map lower_char s"

text \<open>
  \<open>s.indexOf(pat)\<close>: the first position at which \<open>pat\<close> occurs in \<open>s\<close>, or
  \<open>-1\<close>.
\<close>

fun indexOf_from :: "nat \<Rightarrow> string \<Rightarrow> string \<Rightarrow> int" where
  "indexOf_from i [] pat = (if pat = [] then int i else - 1)"
| "indexOf_from i (c # cs) pat =
     (if prefix pat (c # cs) then int i else indexOf_from (Suc i) cs pat)"

definition indexOf :: "string \<Rightarrow> string \<Rightarrow> int" where
  "indexOf s pat = indexOf_from 0 s pat"

text \<open>
  Assignment \<open>obj[k] = v\<close> on an object kept as an association list in its
  iteration order: an existing key keeps its place, a new key goes last.
\<close>

fun assign :: "(string \<times> 'v) list \<Rightarrow> string \<Rightarrow> 'v \<Rightarrow> (string \<times> 'v) list" where
  "assign [] k v = [(k, v)]"
| "assign ((k', v') # kvs) k v =
     (if k' = k then (k, v) # kvs else (k', v') # assign kvs k v)"

subsection \<open>Validation specs and parsed rules\<close>

text \<open>
  One declared validation. \<open>funcName\<close>, \<open>funcArgs\<close> and \<open>field\<close> are the
  members the rewriter adds; \<open>None\<close> is an absent member.
\<close>

record validation_spec =
  property :: string
  rule :: string
  message :: "(string \<times> string) list option"
  translation_key :: "string option"
  funcName :: "string option"
  funcArgs :: "string list"
  field :: "string option"

text \<open>
  What \<open>pupil.parser.parse(pupil.lexer.tokenize(rule))\<close> returns: a list of
  entities, each with a list \<open>sub\<close> (empty when the member is absent) of
  sub-entities carrying \<open>funcName\<close> and \<open>funcArgs\<close>.
\<close>

datatype sub_entity = SubEntity (e_funcName: "string option") (e_funcArgs: "string list")

datatype entity = Entity (e_sub: "sub_entity list")

text \<open>\<open>Object.keys(self.extra_validations)\<close>.\<close>

definition names :: "string list" where
  "names = [''unique'', ''uniqueWithin'', ''exists'', ''isISOWeek'']"

subsection \<open>The rule rewriter (first loop of validate)\<close>

text \<open>The body of the innermost \<open>_.each(entity.sub, ...)\<close>, on the spec \<open>validations[idx]\<close>.\<close>

definition rewrite_sub :: "sub_entity \<Rightarrow> validation_spec \<Rightarrow> validation_spec" where
  "rewrite_sub e v =
     (case e_funcName e of
        None \<Rightarrow> v
      | Some f \<Rightarrow>
          if f \<in> set names then
            (if indexOf (property v) (''_'' @ f) = - 1
             then v\<lparr>funcName := Some f, funcArgs := e_funcArgs e,
                    field := Some (property v), property := property v @ ''_'' @ f\<rparr>
             else v)
          else v)"

definition rewrite_entity :: "entity \<Rightarrow> validation_spec \<Rightarrow> validation_spec" where
  "rewrite_entity en v = fold rewrite_sub (e_sub en) v"

text \<open>
  One round of the outer \<open>_.each(validations, ...)\<close>: the parser is a
  parameter, \<open>Inl e\<close> being a thrown exception with \<open>JSON.stringify\<close> of it.
  The result is the spec as it stands afterwards and the strings pushed on
  \<open>errors\<close>.
\<close>

definition rewrite_spec ::
  "(string \<Rightarrow> string + entity list) \<Rightarrow> validation_spec \<Rightarrow> validation_spec \<times> string list" where
  "rewrite_spec parse v =
     (case parse (rule v) of
        Inl e \<Rightarrow> (v, [''Error on pupil validations: '' @ e])
      | Inr entities \<Rightarrow> (fold rewrite_entity entities v, []))"

definition rewrite ::
  "(string \<Rightarrow> string + entity list) \<Rightarrow> validation_spec list \<Rightarrow> validation_spec list \<times> string list" where
  "rewrite parse validations =
     (map (\<lambda>v. fst (rewrite_spec parse v)) validations,
      concat (map (\<lambda>v. snd (rewrite_spec parse v)) validations))"

subsection \<open>The platform\<close>

text \<open>
  What the JavaScript platform and moment supply, as parameters:
  \<open>toLowerCase\<close> for \<open>String.prototype.toLowerCase\<close> (lower-casing of every
  cased letter, whatever the encoding of the string), \<open>parseInt\<close>,
  \<open>subtract_from_now d\<close> for \<open>moment().subtract(d).valueOf()\<close>,
  \<open>currentYear\<close> for \<open>new Date().getFullYear()\<close> and \<open>isoWeeksInYear y\<close> for
  \<open>moment().year(y).isoWeeksInYear()\<close>.
\<close>

datatype duration = Duration jsnum "string option"

record platform =
  toLowerCase :: "string \<Rightarrow> string"
  parseInt :: "string \<Rightarrow> jsnum"
  subtract_from_now :: "duration \<Rightarrow> jsnum"
  currentYear :: int
  isoWeeksInYear :: "int \<Rightarrow> int"

subsection \<open>The datastore and the shared existence check\<close>

text \<open>
  An error object: \<open>Error m\<close> is \<open>new Error(m)\<close> made by this file, \<open>DbError\<close>
  one the datastore reports.
\<close>

datatype js_error = Error string | DbError string

text \<open>What a document fetched with \<open>include_docs\<close> shows to the check.\<close>

record stored_doc =
  errors :: "string list option"
  reported_date :: "int option"

text \<open>
  \<open>query\<close> is \<open>db.medic.query('medic-client/reports_by_freetext', {key: [k]})\<close>
  and answers with the ids of the rows; \<open>allDocs\<close> is
  \<open>db.medic.allDocs({keys: ids, include_docs: true})\<close> and answers with the
  documents of its rows.
\<close>

record datastore =
  query :: "string \<Rightarrow> js_error + string list"
  allDocs :: "string list \<Rightarrow> js_error + stored_doc list"

record exists_options =
  startDate :: "jsnum option"
  additionalFilter :: "string option"

text \<open>What the run of the pipeline leaves behind, in order.\<close>

datatype event =
    Query string
  | AllDocs "string list"
  | PupilValidate
  | Invoke validation_spec
  | ExtractErrors

text \<open>
  What a validator hands to its callback, \<open>Result err res\<close> (\<open>res = None\<close> is
  \<open>undefined\<close>), or \<open>Threw\<close> when it throws a TypeError instead.
\<close>

datatype call_result = Result "js_error option" "bool option" | Threw

text \<open>
  Functions whose source name starts with an underscore carry the prefix
  \<open>x_\<close> here. \<open>x_getIntersection\<close> takes the id lists of the responses;
  \<open>None\<close> is the TypeError of \<open>responses.pop().rows\<close> on an empty list.
\<close>

definition x_getIntersection :: "string list list \<Rightarrow> string list option" where
  "x_getIntersection responses =
     (if responses = [] then None
      else Some (fold (\<lambda>response ids. filter (\<lambda>id. id \<in> set response) ids)
                   (butlast responses) (last responses)))"

fun lowerCaseString :: "platform \<Rightarrow> jsval \<Rightarrow> jsval" where
  "lowerCaseString pf (JStr s) = JStr (toLowerCase pf s)"
| "lowerCaseString pf v = v"

text \<open>A value inside a template literal; an absent member prints as \<open>undefined\<close>.\<close>

definition template :: "jsval option \<Rightarrow> string" where
  "template x = (case x of None \<Rightarrow> ''undefined'' | Some v \<Rightarrow> js_String v)"

definition request_key :: "platform \<Rightarrow> attributes \<Rightarrow> string \<Rightarrow> string" where
  "request_key pf doc f = f @ '':'' @ template (map_option (lowerCaseString pf) (doc f))"

text \<open>
  \<open>async.map\<close>: every request is issued; the answer is an error if one of them
  fails (here the first in the order of the list), the list of responses
  otherwise.
\<close>

fun async_map :: "('a \<Rightarrow> js_error + 'b) \<Rightarrow> 'a list \<Rightarrow> js_error + 'b list" where
  "async_map f [] = Inr []"
| "async_map f (x # xs) =
     (case f x of
        Inl e \<Rightarrow> Inl e
      | Inr y \<Rightarrow> (case async_map f xs of Inl e \<Rightarrow> Inl e | Inr ys \<Rightarrow> Inr (y # ys)))"

definition no_arguments :: string where
  \<open>no_arguments = ''No arguments provided to "exists" validation function''\<close>

definition truthy_num :: "jsnum option \<Rightarrow> bool" where
  "truthy_num x = (case x of Some (Num n) \<Rightarrow> n \<noteq> 0 | _ \<Rightarrow> False)"

text \<open>The predicate of \<open>result.rows.some(...)\<close>.\<close>

definition found_row :: "exists_options \<Rightarrow> stored_doc \<Rightarrow> bool" where
  "found_row opts d =
     ((errors d = None \<or> errors d = Some []) \<and>
      (if truthy_num (startDate opts)
       then (case (reported_date d, startDate opts) of
               (Some r, Some (Num n)) \<Rightarrow> n \<le> r
             | _ \<Rightarrow> False)
       else True))"

definition x_exists ::
  "platform \<Rightarrow> datastore \<Rightarrow> attributes \<Rightarrow> string list \<Rightarrow> exists_options \<Rightarrow>
     event list \<times> call_result" where
  "x_exists pf db doc fs opts =
     (if fs = [] then ([], Result (Some (Error no_arguments)) None)
      else
        let keys = map (request_key pf doc) fs @
                   (case additionalFilter opts of
                      None \<Rightarrow> []
                    | Some a \<Rightarrow> if a = [] then [] else [toLowerCase pf a])
        in case async_map (query db) keys of
             Inl err \<Rightarrow> (map Query keys, Result (Some err) None)
           | Inr responses \<Rightarrow>
               (case x_getIntersection responses of
                  None \<Rightarrow> (map Query keys, Threw)
                | Some common \<Rightarrow>
                    let ids = filter (\<lambda>id. doc ''_id'' \<noteq> Some (JStr id)) common
                    in if ids = [] then (map Query keys, Result None (Some False))
                       else
                         (case allDocs db ids of
                            Inl err \<Rightarrow> (map Query keys @ [AllDocs ids], Result (Some err) None)
                          | Inr rows \<Rightarrow>
                              (map Query keys @ [AllDocs ids],
                               Result None (Some (list_ex (found_row opts) rows))))))"

subsection \<open>The extra validators\<close>

text \<open>\<open>s.split(' ')\<close>.\<close>

fun split_on :: "char \<Rightarrow> string \<Rightarrow> string list" where
  "split_on sep [] = [[]]"
| "split_on sep (c # cs) =
     (if c = sep then [] # split_on sep cs
      else (case split_on sep cs of [] \<Rightarrow> [[c]] | p # ps \<Rightarrow> (c # p) # ps))"

definition x_parseDuration :: "platform \<Rightarrow> string \<Rightarrow> duration" where
  "x_parseDuration pf d =
     (case split_on CHR '' '' d of
        [] \<Rightarrow> Duration NaN None
      | [a] \<Rightarrow> Duration (parseInt pf a) None
      | a # b # _ \<Rightarrow> Duration (parseInt pf a) (Some b))"

text \<open>\<open>!result\<close> on what the existence check handed over.\<close>

definition js_not :: "bool option \<Rightarrow> bool" where
  "js_not r = (case r of None \<Rightarrow> True | Some b \<Rightarrow> \<not> b)"

definition negate :: "event list \<times> call_result \<Rightarrow> event list \<times> call_result" where
  "negate x =
     (case x of
        (evs, Result err r) \<Rightarrow> (evs, Result err (Some (js_not r)))
      | (evs, Threw) \<Rightarrow> (evs, Threw))"

definition unique ::
  "platform \<Rightarrow> datastore \<Rightarrow> attributes \<Rightarrow> validation_spec \<Rightarrow> event list \<times> call_result" where
  "unique pf db doc validation =
     negate (x_exists pf db doc (funcArgs validation) \<lparr>startDate = None, additionalFilter = None\<rparr>)"

text \<open>
  \<open>fields.pop()\<close> on an empty argument list is \<open>undefined\<close>, and
  \<open>_parseDuration\<close> throws on it.
\<close>

definition uniqueWithin ::
  "platform \<Rightarrow> datastore \<Rightarrow> attributes \<Rightarrow> validation_spec \<Rightarrow> event list \<times> call_result" where
  "uniqueWithin pf db doc validation =
     (if funcArgs validation = [] then ([], Threw)
      else
        let fs = butlast (funcArgs validation);
            duration = x_parseDuration pf (last (funcArgs validation));
            start = subtract_from_now pf duration
        in negate (x_exists pf db doc fs \<lparr>startDate = Some start, additionalFilter = None\<rparr>))"

text \<open>
  An argument that is not there is \<open>undefined\<close>; as a member name and inside a
  template literal that is the string \<open>undefined\<close>.
\<close>

definition arg :: "string list \<Rightarrow> nat \<Rightarrow> string" where
  "arg args i = (if i < length args then args ! i else ''undefined'')"

definition exists ::
  "platform \<Rightarrow> datastore \<Rightarrow> attributes \<Rightarrow> validation_spec \<Rightarrow> event list \<times> call_result" where
  "exists pf db doc validation =
     (let formName = arg (funcArgs validation) 0;
          fieldName = arg (funcArgs validation) 1
      in case x_exists pf db doc [fieldName]
                \<lparr>startDate = None, additionalFilter = Some (''form:'' @ formName)\<rparr> of
           (evs, Result err r) \<Rightarrow> (evs, Result err r)
         | (evs, Threw) \<Rightarrow> (evs, Threw))"

text \<open>The tests \<open>/^\d{1,2}$/\<close> and \<open>/^\d{4}$/\<close>.\<close>

definition test_d12 :: "string \<Rightarrow> bool" where
  "test_d12 s = ((length s = 1 \<or> length s = 2) \<and> list_all is_digit s)"

definition test_d4 :: "string \<Rightarrow> bool" where
  "test_d4 s = (length s = 4 \<and> list_all is_digit s)"

text \<open>
  \<open>isValidISOWeek\<close> on the value of the week member and the string form of
  the year. The comparisons are reached only after both tests have passed, and
  then \<open>Number\<close> of either operand is \<open>dec\<close> of its string form.
\<close>

definition isValidISOWeek :: "platform \<Rightarrow> jsval \<Rightarrow> string \<Rightarrow> bool" where
  "isValidISOWeek pf week year =
     (test_d12 (js_String week) \<and> test_d4 year \<and>
      1 \<le> dec (js_String week) \<and>
      int (dec (js_String week)) \<le> isoWeeksInYear pf (int (dec year)))"

definition isISOWeek :: "platform \<Rightarrow> attributes \<Rightarrow> validation_spec \<Rightarrow> event list \<times> call_result" where
  "isISOWeek pf doc validation =
     (let weekFieldName = arg (funcArgs validation) 0;
          yearFieldName =
            (if 1 < length (funcArgs validation) \<and> funcArgs validation ! 1 \<noteq> []
             then Some (funcArgs validation ! 1) else None)
      in case doc weekFieldName of
           None \<Rightarrow> ([], Result None (Some False))
         | Some week \<Rightarrow>
             (case yearFieldName of
                None \<Rightarrow> ([], Result None (Some (isValidISOWeek pf week (show_int (currentYear pf)))))
              | Some y \<Rightarrow>
                  (case doc y of
                     None \<Rightarrow> ([], Result None (Some False))
                   | Some year \<Rightarrow> ([], Result None (Some (isValidISOWeek pf week (js_String year)))))))"

text \<open>\<open>self.extra_validations[name]\<close>; \<open>None\<close> when the registry has no such member.\<close>

definition extra_validations ::
  "platform \<Rightarrow> datastore \<Rightarrow> string \<Rightarrow>
     (attributes \<Rightarrow> validation_spec \<Rightarrow> event list \<times> call_result) option" where
  "extra_validations pf db name =
     (if name = ''unique'' then Some (unique pf db)
      else if name = ''uniqueWithin'' then Some (uniqueWithin pf db)
      else if name = ''exists'' then Some (exists pf db)
      else if name = ''isISOWeek'' then Some (isISOWeek pf)
      else None)"

subsection \<open>Rules, messages and the error reducer\<close>

text \<open>
  The document under validation: its own members (\<open>props\<close>, where a document
  with a \<open>fields\<close> member also maps \<open>fields\<close> to that object) and the optional
  \<open>fields\<close> sub-map (\<open>doc_fields\<close>). \<open>attributes_of\<close> is \<open>_.extend({}, doc, doc.fields)\<close>.
\<close>

record document =
  props :: "string \<rightharpoonup> jsval"
  doc_fields :: "(string \<rightharpoonup> jsval) option"

definition attributes_of :: "document \<Rightarrow> attributes" where
  "attributes_of doc =
     (case doc_fields doc of
        None \<Rightarrow> props doc
      | Some fs \<Rightarrow> (props doc)(''fields'' \<mapsto> JObject) ++ fs)"

text \<open>
  The grammar engine, the locale lookup and the message lookup:
  \<open>parse r\<close> is \<open>pupil.parser.parse(pupil.lexer.tokenize(r))\<close> and
  \<open>pupil_validate\<close> is \<open>pupil.validate\<close>, both with \<open>Inl\<close> for a thrown
  exception (\<open>JSON.stringify\<close> of it). The result of \<open>pupil.validate\<close> is its
  \<open>results\<close> object, which \<open>fields()\<close> returns as it is, together with the
  attributes object as the call leaves it: the engine is handed the very
  object that the extra validators read afterwards, and it may write into it
  (it stores the empty string for a rule property the document lacks).
\<close>

record engine =
  parse :: "string \<Rightarrow> string + entity list"
  pupil_validate ::
    "(string \<times> string) list \<Rightarrow> attributes \<Rightarrow> string + ((string \<times> bool) list \<times> attributes)"
  getLocale :: "document \<Rightarrow> string"
  getMessage :: "validation_spec \<Rightarrow> string \<Rightarrow> string option"

definition getRules :: "validation_spec list \<Rightarrow> (string \<times> string) list" where
  "getRules validations =
     fold (\<lambda>validation memo.
             if property validation \<noteq> [] \<and> rule validation \<noteq> []
             then assign memo (property validation) (rule validation) else memo)
       validations []"

definition has_message :: "validation_spec \<Rightarrow> bool" where
  "has_message validation =
     (message validation \<noteq> None \<or>
      (case translation_key validation of None \<Rightarrow> False | Some k \<Rightarrow> k \<noteq> []))"

definition getMessages ::
  "engine \<Rightarrow> validation_spec list \<Rightarrow> string \<Rightarrow> (string \<Rightarrow> string option)" where
  "getMessages eng validations locale =
     fold (\<lambda>validation memo.
             if property validation \<noteq> [] \<and> has_message validation
             then memo(property validation := getMessage eng validation locale) else memo)
       validations (\<lambda>_. None)"

text \<open>
  The third argument of \<open>extractErrors\<close>: absent (or \<open>null\<close>), one name, an
  array of names, or a value that is neither (such as the callback when
  \<open>validate\<close> is called with three arguments). \<open>ignore_list\<close> is the array
  after \<open>ignores = ignores || []\<close> and the wrapping of a single item, without
  the entries that are no strings (they equal no key).
\<close>

datatype ignores = IgnAbsent | IgnName string | IgnList "string list" | IgnOther

definition ignore_list :: "ignores \<Rightarrow> string list" where
  "ignore_list ig =
     (case ig of
        IgnAbsent \<Rightarrow> []
      | IgnName s \<Rightarrow> if s = [] then [] else [s]
      | IgnList xs \<Rightarrow> xs
      | IgnOther \<Rightarrow> [])"

text \<open>
  An element of the array handed to the callback: a string (\<open>Msg\<close>) or an
  error descriptor with \<open>code\<close> and \<open>message\<close>.
\<close>

datatype error_entry = Msg string | Descriptor string "string option"

definition extractErrors ::
  "(string \<times> bool) list \<Rightarrow> (string \<Rightarrow> string option) \<Rightarrow> ignores \<Rightarrow> error_entry list" where
  "extractErrors result messages ig =
     fold (\<lambda>(key, valid) memo.
             if \<not> valid \<and> key \<notin> set (ignore_list ig)
             then memo @ [Descriptor (''invalid_'' @ key) (messages key)] else memo)
       result []"

subsection \<open>The series of extra validators and validate\<close>

text \<open>
  How one round of the series ends: \<open>Done\<close> is \<open>cb()\<close> with no error,
  \<open>Failed e\<close> is \<open>cb(e)\<close>, \<open>Crashed\<close> an exception nobody catches.
\<close>

datatype series_end = Done | Failed js_error | Crashed

text \<open>The iteratee handed to \<open>async.eachSeries\<close>, on the result set \<open>result.results\<close>.\<close>

definition iteratee ::
  "platform \<Rightarrow> datastore \<Rightarrow> attributes \<Rightarrow> validation_spec \<Rightarrow> (string \<times> bool) list \<Rightarrow>
     event list \<times> (string \<times> bool) list \<times> series_end" where
  "iteratee pf db attributes v results =
     (case funcName v of
        None \<Rightarrow> ([], results, Done)
      | Some f \<Rightarrow>
          if f = [] then ([], results, Done)
          else
            (case extra_validations pf db f of
               None \<Rightarrow> ([], results, Crashed)
             | Some validator \<Rightarrow>
                 (case validator attributes v of
                    (evs, Threw) \<Rightarrow> (Invoke v # evs, results, Crashed)
                  | (evs, Result err res) \<Rightarrow>
                      (Invoke v # evs,
                       (if res = Some False then assign results (property v) False else results),
                       (case err of None \<Rightarrow> Done | Some e \<Rightarrow> Failed e)))))"

text \<open>
  \<open>async.eachSeries\<close>: the items one after the other, the next one only after
  the callback of the one before, and none after an error.
\<close>

fun eachSeries ::
  "('a \<Rightarrow> 's \<Rightarrow> event list \<times> 's \<times> series_end) \<Rightarrow> 'a list \<Rightarrow> 's \<Rightarrow>
     event list \<times> 's \<times> series_end" where
  "eachSeries it [] s = ([], s, Done)"
| "eachSeries it (v # vs) s =
     (case it v s of
        (evs, s', e) \<Rightarrow>
          if e = Done
          then (case eachSeries it vs s' of (evs', s'', e') \<Rightarrow> (evs @ evs', s'', e'))
          else (evs, s', e))"

text \<open>What a call of \<open>validate\<close> comes to: the array its callback receives, or no call at all.\<close>

datatype outcome = Callback "error_entry list" | Uncaught

text \<open>
  The extra validators on the rewritten specs, from the result set of the
  grammar engine: the events, the final result set and the end of the series.
\<close>

definition run_series ::
  "platform \<Rightarrow> datastore \<Rightarrow> attributes \<Rightarrow> validation_spec list \<Rightarrow> (string \<times> bool) list \<Rightarrow>
     event list \<times> (string \<times> bool) list \<times> series_end" where
  "run_series pf db attributes validations results =
     eachSeries (iteratee pf db attributes) validations results"

definition validate ::
  "engine \<Rightarrow> platform \<Rightarrow> datastore \<Rightarrow> document \<Rightarrow> validation_spec list \<Rightarrow> ignores \<Rightarrow>
     event list \<times> outcome" where
  "validate eng pf db doc validations0 ig =
     (case rewrite (parse eng) validations0 of
        (validations, errs) \<Rightarrow>
          if errs \<noteq> [] then ([], Callback (map Msg errs))
          else
            (case pupil_validate eng (getRules validations) (attributes_of doc) of
               Inl e \<Rightarrow> ([PupilValidate], Callback [Msg (''Error on pupil validations: '' @ e)])
             | Inr (result, attributes) \<Rightarrow>
                 (case run_series pf db attributes validations result of
                    (evs, results, e) \<Rightarrow>
                      if e = Crashed then (PupilValidate # evs, Uncaught)
                      else
                        (PupilValidate # evs @ [ExtractErrors],
                         Callback (extractErrors results
                                     (getMessages eng validations (getLocale eng doc)) ig)))))"

subsection \<open>Notions used in the statements\<close>

text \<open>A sub-entity that calls one of the extra validators.\<close>

definition registered :: "sub_entity \<Rightarrow> bool" where
  "registered e = (case e_funcName e of None \<Rightarrow> False | Some f \<Rightarrow> f \<in> set names)"

text \<open>The sub-entities of a parsed rule, in the order in which the rewriter visits them.\<close>

definition all_subs :: "entity list \<Rightarrow> sub_entity list" where
  "all_subs entities = concat (map e_sub entities)"

text \<open>Every registered name among the sub-entities already occurs, after an underscore, in the property.\<close>

definition marked :: "sub_entity list \<Rightarrow> validation_spec \<Rightarrow> bool" where
  "marked ss v =
     list_all (\<lambda>e. case e_funcName e of
                     None \<Rightarrow> True
                   | Some f \<Rightarrow> if f \<in> set names then sublist (''_'' @ f) (property v) else True) ss"

text \<open>
  What the round of the series on the spec \<open>v\<close> does, apart from the result
  set: how it ends, what it leaves in the event list, and the boolean its
  validator hands over (\<open>None\<close> when it hands over none, or no validator
  runs).
\<close>

definition step_end :: "platform \<Rightarrow> datastore \<Rightarrow> attributes \<Rightarrow> validation_spec \<Rightarrow> series_end" where
  "step_end pf db attributes v = snd (snd (iteratee pf db attributes v []))"

definition step_events :: "platform \<Rightarrow> datastore \<Rightarrow> attributes \<Rightarrow> validation_spec \<Rightarrow> event list" where
  "step_events pf db attributes v = fst (iteratee pf db attributes v [])"

definition answer :: "platform \<Rightarrow> datastore \<Rightarrow> attributes \<Rightarrow> validation_spec \<Rightarrow> bool option" where
  "answer pf db attributes v =
     (case funcName v of
        None \<Rightarrow> None
      | Some f \<Rightarrow>
          if f = [] then None
          else
            (case extra_validations pf db f of
               None \<Rightarrow> None
             | Some validator \<Rightarrow>
                 (case snd (validator attributes v) of Result err res \<Rightarrow> res | Threw \<Rightarrow> None)))"

text \<open>A spec for which the series calls an extra validator.\<close>

definition called :: "validation_spec \<Rightarrow> bool" where
  "called v = (case funcName v of None \<Rightarrow> False | Some f \<Rightarrow> f \<noteq> [] \<and> f \<in> set names)"

text \<open>The specs whose validators were invoked, in the order of the invocations.\<close>

definition invocations :: "event list \<Rightarrow> validation_spec list" where
  "invocations evs = concat (map (\<lambda>ev. case ev of Invoke v \<Rightarrow> [v] | _ \<Rightarrow> []) evs)"

text \<open>
  The specs on which the series runs a round: those up to and including the
  first whose round does not end with \<open>Done\<close>.
\<close>

definition rounds :: "platform \<Rightarrow> datastore \<Rightarrow> attributes \<Rightarrow> validation_spec list \<Rightarrow> validation_spec list" where
  "rounds pf db a vs =
     takeWhile (\<lambda>v. step_end pf db a v = Done) vs @
     take 1 (dropWhile (\<lambda>v. step_end pf db a v = Done) vs)"

text \<open>The strings the rewriter pushes on \<open>errors\<close>: one for every rule that does not parse.\<close>

definition parse_errors :: "(string \<Rightarrow> string + entity list) \<Rightarrow> validation_spec list \<Rightarrow> string list" where
  "parse_errors ps validations =
     concat (map (\<lambda>v. case ps (rule v) of
                          Inl e \<Rightarrow> [''Error on pupil validations: '' @ e]
                        | Inr entities \<Rightarrow> []) validations)"



text \<open>
  The ISO week rule in the words of the specification: the number a value
  stands for when its string form consists of one or two digits (a string of
  one or two digits, or a whole number from 0 to 99), and likewise of exactly
  four digits for a year.
\<close>

fun week_number :: "jsval \<Rightarrow> nat option" where
  "week_number (JStr s) =
     (if (length s = 1 \<or> length s = 2) \<and> list_all is_digit s then Some (dec s) else None)"
| "week_number (JNum n) = (if 0 \<le> n \<and> n \<le> 99 then Some (nat n) else None)"
| "week_number v = None"

fun year_number :: "jsval \<Rightarrow> nat option" where
  "year_number (JStr s) = (if length s = 4 \<and> list_all is_digit s then Some (dec s) else None)"
| "year_number (JNum n) = (if 1000 \<le> n \<and> n \<le> 9999 then Some (nat n) else None)"
| "year_number v = None"

definition iso_week_valid :: "platform \<Rightarrow> jsval \<Rightarrow> jsval \<Rightarrow> bool" where
  "iso_week_valid pf week year =
     (case (week_number week, year_number year) of
        (Some n, Some y) \<Rightarrow> 1 \<le> n \<and> int n \<le> isoWeeksInYear pf (int y)
      | _ \<Rightarrow> False)"

text \<open>
  The strings of the list that the callback receives, each cut after its
  first 28 characters: \<open>Error on pupil validations: \<close> is what a parse error
  string reads before the text of the exception.
\<close>

definition error_heads :: "outcome \<Rightarrow> string list" where
  "error_heads out =
     (case out of
        Callback es \<Rightarrow> map (\<lambda>e. case e of Msg s \<Rightarrow> take 28 s | Descriptor c m \<Rightarrow> []) es
      | Uncaught \<Rightarrow> [])"

subsection \<open>A configuration for the concrete instances\<close>

text \<open>
  A stand-in for the parser of the grammar engine at the rule strings of the
  concrete instances: three rules that it parses, with the entities it
  makes of them, and the rule \<open>)\<close>, which it rejects (a closing bracket
  with nothing open). \<open>example_exception\<close> stands for \<open>JSON.stringify\<close> of
  the exception; no statement below depends on what it reads. At every other
  rule string the stand-in is not the grammar engine, and nothing is
  evaluated there. \<open>spec_of\<close> is a spec as a settings file declares it.
\<close>

definition example_exception :: string where
  "example_exception = ''{}''"

definition example_parse :: "string \<Rightarrow> string + entity list" where
  "example_parse r =
     (if r = ''unique('patient_id')'' then Inr [Entity [SubEntity (Some ''unique'') [''patient_id'']]]
      else if r = ''uniqueWithin('patient_id','7 days')''
        then Inr [Entity [SubEntity (Some ''uniqueWithin'') [''patient_id'', ''7 days'']]]
      else if r = ''lenMin(1)'' then Inr [Entity [SubEntity (Some ''lenMin'') [''1'']]]
      else if r = '')'' then Inl example_exception
      else Inr [])"

definition spec_of :: "string \<Rightarrow> string \<Rightarrow> validation_spec" where
  "spec_of p r =
     \<lparr>property = p, rule = r, message = None, translation_key = None,
      funcName = None, funcArgs = [], field = None\<rparr>"

text \<open>
  A platform whose clock stands at \<open>example_now\<close> milliseconds, in the year
  2026, and which knows durations in days; the ISO years of 53 weeks around
  it are 2015, 2020 and 2026.
\<close>

definition example_now :: int where
  "example_now = 1790000000000"

definition example_platform :: platform where
  "example_platform =
     \<lparr>toLowerCase = lower_ascii,
      parseInt = (\<lambda>s. if s \<noteq> [] \<and> list_all is_digit s then Num (int (dec s)) else NaN),
      subtract_from_now =
        (\<lambda>d. case d of
               Duration (Num n) (Some u) \<Rightarrow>
                 if u = ''days'' then Num (example_now - n * 86400000) else NaN
             | _ \<Rightarrow> NaN),
      currentYear = 2026,
      isoWeeksInYear = (\<lambda>y. if y = 2015 \<or> y = 2020 \<or> y = 2026 then 53 else 52)\<rparr>"

text \<open>
  A grammar engine over \<open>example_parse\<close>. It first stores the empty string
  for every rule property that the attributes lack or hold as \<open>null\<close>; then
  the rule \<open>lenMin(1)\<close> holds of a non-empty string and every other rule
  holds. The result lists the rule properties. Messages are looked up by
  locale in the \<open>message\<close> list of the spec, and the locale is always
  \<open>en\<close>.
\<close>

definition example_fill :: "(string \<times> string) list \<Rightarrow> attributes \<Rightarrow> attributes" where
  "example_fill rules attrs =
     fold (\<lambda>(p, r) a. if a p = None \<or> a p = Some JNull then a(p \<mapsto> JStr []) else a) rules attrs"

definition example_engine :: engine where
  "example_engine =
     \<lparr>parse = example_parse,
      pupil_validate =
        (\<lambda>rules attrs.
           Inr (map (\<lambda>(p, r).
                       (p, if r = ''lenMin(1)''
                           then (case example_fill rules attrs p of
                                   Some (JStr s) \<Rightarrow> s \<noteq> []
                                 | _ \<Rightarrow> False)
                           else True)) rules,
                example_fill rules attrs)),
      getLocale = (\<lambda>doc. ''en''),
      getMessage = (\<lambda>v locale. case message v of None \<Rightarrow> None | Some ms \<Rightarrow> map_of ms locale)\<rparr>"

text \<open>
  Three datastores: one that fails every request, one without documents, and
  one in which the key \<open>patient_id:x\<close> finds the documents \<open>self\<close>, \<open>r1\<close>
  and \<open>r2\<close>; \<open>r1\<close> carries a recorded error and was reported a day ago,
  \<open>r2\<close> is free of errors and was reported eight days ago.
\<close>

definition failing_db :: datastore where
  "failing_db =
     \<lparr>query = (\<lambda>k. Inl (DbError ''timeout'')), allDocs = (\<lambda>ids. Inl (DbError ''timeout''))\<rparr>"

definition empty_db :: datastore where
  "empty_db = \<lparr>query = (\<lambda>k. Inr []), allDocs = (\<lambda>ids. Inr [])\<rparr>"

definition example_fetch :: "string \<Rightarrow> stored_doc" where
  "example_fetch i =
     (if i = ''r1'' then \<lparr>errors = Some [''invalid_name''], reported_date = Some (example_now - 86400000)\<rparr>
      else if i = ''r2'' then \<lparr>errors = Some [], reported_date = Some (example_now - 8 * 86400000)\<rparr>
      else \<lparr>errors = None, reported_date = Some example_now\<rparr>)"

definition example_db :: datastore where
  "example_db =
     \<lparr>query = (\<lambda>k. if k = ''patient_id:x'' then Inr [''self'', ''r1'', ''r2''] else Inr []),
      allDocs = (\<lambda>ids. Inr (map example_fetch ids))\<rparr>"

text \<open>A document with an empty name, and the two validations of its settings.\<close>

definition example_doc :: document where
  "example_doc =
     \<lparr>props = [''_id'' \<mapsto> JStr ''self'', ''patient_id'' \<mapsto> JStr ''X'', ''name'' \<mapsto> JStr ''''],
      doc_fields = None\<rparr>"

definition example_validations :: "validation_spec list" where
  "example_validations =
     [spec_of ''name'' ''lenMin(1)'', spec_of ''patient_id'' ''unique('patient_id')'']"

text \<open>The second of them as the rewriter leaves it.\<close>

definition unique_spec :: validation_spec where
  "unique_spec =
     \<lparr>property = ''patient_id_unique'', rule = ''unique('patient_id')'', message = None,
      translation_key = None, funcName = Some ''unique'', funcArgs = [''patient_id''],
      field = Some ''patient_id''\<rparr>"

text \<open>
  Two more rewritten specs, a uniqueness check on the name and one within
  seven days on the patient id, and a datastore that fails on the key
  \<open>patient_id:x\<close> only.
\<close>

definition name_spec :: validation_spec where
  "name_spec =
     \<lparr>property = ''name_unique'', rule = ''unique('name')'', message = None,
      translation_key = None, funcName = Some ''unique'', funcArgs = [''name''],
      field = Some ''name''\<rparr>"

definition within_spec :: validation_spec where
  "within_spec =
     \<lparr>property = ''patient_id_uniqueWithin'', rule = ''uniqueWithin('patient_id','7 days')'',
      message = None, translation_key = None, funcName = Some ''uniqueWithin'',
      funcArgs = [''patient_id'', ''7 days''], field = Some ''patient_id''\<rparr>"

definition flaky_db :: datastore where
  "flaky_db =
     \<lparr>query = (\<lambda>k. if k = ''patient_id:x'' then Inl (DbError ''timeout'') else Inr []),
      allDocs = (\<lambda>ids. Inr [])\<rparr>"




text \<open>The spec of the ISO week validation on the members \<open>week\<close> and \<open>year\<close>, and on the week alone.\<close>

definition iso_spec :: validation_spec where
  "iso_spec =
     \<lparr>property = ''week_isISOWeek'', rule = ''isISOWeek('week','year')'', message = None,
      translation_key = None, funcName = Some ''isISOWeek'', funcArgs = [''week'', ''year''],
      field = Some ''week''\<rparr>"

definition iso_week_only_spec :: validation_spec where
  "iso_week_only_spec =
     \<lparr>property = ''week_isISOWeek'', rule = ''isISOWeek('week')'', message = None,
      translation_key = None, funcName = Some ''isISOWeek'', funcArgs = [''week''],
      field = Some ''week''\<rparr>"

section \<open>Properties of the pipeline\<close>

subsection \<open>The rule rewriter\<close>

lemma indexOf_from_absent: "indexOf_from i s pat = - 1 \<longleftrightarrow> \<not> sublist pat s"
  by (induction s arbitrary: i) (auto simp: sublist_Cons_right)

lemma indexOf_absent: "indexOf s pat = - 1 \<longleftrightarrow> \<not> sublist pat s"
  by (simp add: indexOf_def indexOf_from_absent)

lemma rewrite_sub_unregistered: "\<not> registered e \<Longrightarrow> rewrite_sub e v = v"
  by (auto simp: rewrite_sub_def registered_def split: option.splits)

lemma rewrite_sub_registered:
  "e_funcName e = Some f \<Longrightarrow> f \<in> set names \<Longrightarrow>
   rewrite_sub e v =
     (if sublist (''_'' @ f) (property v) then v
      else v\<lparr>funcName := Some f, funcArgs := e_funcArgs e,
              field := Some (property v), property := property v @ ''_'' @ f\<rparr>)"
  by (simp add: rewrite_sub_def indexOf_absent)

lemma rewrite_sub_rule: "rule (rewrite_sub e v) = rule v"
  by (auto simp: rewrite_sub_def split: option.splits)

lemma rewrite_sub_grows: "sublist p (property v) \<Longrightarrow> sublist p (property (rewrite_sub e v))"
  by (auto simp: rewrite_sub_def sublist_append split: option.splits)

lemma rewrite_sub_marks:
  "e_funcName e = Some f \<Longrightarrow> f \<in> set names \<Longrightarrow> sublist (''_'' @ f) (property (rewrite_sub e v))"
  by (auto simp: rewrite_sub_def indexOf_absent sublist_append split: option.splits)

lemma fold_entities: "fold rewrite_entity entities v = fold rewrite_sub (all_subs entities) v"
  by (induction entities arbitrary: v) (simp_all add: all_subs_def rewrite_entity_def)

lemma fold_unregistered: "filter registered ss = [] \<Longrightarrow> fold rewrite_sub ss v = v"
  by (induction ss arbitrary: v) (auto simp: rewrite_sub_unregistered split: if_splits)

lemma fold_single: "filter registered ss = [e] \<Longrightarrow> fold rewrite_sub ss v = rewrite_sub e v"
proof (induction ss arbitrary: v)
  case Nil
  then show ?case by simp
next
  case (Cons s ss)
  show ?case
  proof (cases "registered s")
    case True
    with Cons.prems have "s = e" and "filter registered ss = []" by simp_all
    then show ?thesis by (simp add: fold_unregistered)
  next
    case False
    with Cons show ?thesis by (simp add: rewrite_sub_unregistered)
  qed
qed

lemma fold_rule: "rule (fold rewrite_sub ss v) = rule v"
  by (induction ss arbitrary: v) (simp_all add: rewrite_sub_rule)

lemma fold_grows: "sublist p (property v) \<Longrightarrow> sublist p (property (fold rewrite_sub ss v))"
  by (induction ss arbitrary: v) (simp_all add: rewrite_sub_grows)

lemma marked_step: "marked ss v \<Longrightarrow> marked ss (rewrite_sub e v)"
  by (induction ss) (auto simp: marked_def rewrite_sub_grows split: option.splits)

lemma fold_marks: "marked ss (fold rewrite_sub ss v)"
proof (induction ss arbitrary: v rule: rev_induct)
  case Nil
  then show ?case by (simp add: marked_def)
next
  case (snoc e ss)
  have "marked ss (rewrite_sub e (fold rewrite_sub ss v))"
    using snoc.IH by (rule marked_step)
  moreover have "marked [e] (rewrite_sub e (fold rewrite_sub ss v))"
    using rewrite_sub_marks [of e] by (auto simp: marked_def split: option.splits)
  ultimately show ?case by (simp add: marked_def)
qed

lemma rewrite_sub_marked: "marked [e] v \<Longrightarrow> rewrite_sub e v = v"
  by (auto simp: marked_def rewrite_sub_def indexOf_absent split: option.splits if_splits)

lemma fold_marked: "marked ss v \<Longrightarrow> fold rewrite_sub ss v = v"
proof (induction ss)
  case Nil
  then show ?case by simp
next
  case (Cons e ss)
  then have "marked [e] v" and "marked ss v" by (simp_all add: marked_def)
  with Cons.IH show ?case by (simp add: rewrite_sub_marked)
qed

lemma rewrite_spec_rule: "rule (fst (rewrite_spec ps v)) = rule v"
  by (simp add: rewrite_spec_def fold_entities fold_rule split: sum.splits)

lemma rewrite_spec_idem:
  "rewrite_spec ps (fst (rewrite_spec ps v)) = rewrite_spec ps v"
proof (cases "ps (rule v)")
  case (Inl e)
  then show ?thesis by (simp add: rewrite_spec_def)
next
  case (Inr entities)
  let ?w = "fold rewrite_sub (all_subs entities) v"
  have "rule ?w = rule v" by (rule fold_rule)
  moreover have "fold rewrite_sub (all_subs entities) ?w = ?w"
    by (rule fold_marked) (rule fold_marks)
  ultimately show ?thesis using Inr by (simp add: rewrite_spec_def fold_entities)
qed

lemma fold_registered_only:
  "fold rewrite_sub ss v = fold rewrite_sub (filter registered ss) v"
  by (induction ss arbitrary: v) (simp_all add: rewrite_sub_unregistered)

text \<open>
  What the rewriter does for a spec whose rule parses: one step for every
  sub-entity that calls a registered extra validator \<open>f\<close>, in the order of
  the parsed rule. The step records \<open>funcName\<close> and \<open>funcArgs\<close>, sets
  \<open>field\<close> to the property as it stands and appends \<open>_f\<close> to the property,
  precisely when \<open>_f\<close> does not occur anywhere in the property; when it
  occurs, and so in particular when the property ends with it, the step
  leaves the spec as it is.
\<close>

theorem rewrite_spec_extra_validator:
  assumes "ps (rule v) = Inr entities"
  shows "rewrite_spec ps v = (fold rewrite_sub (filter registered (all_subs entities)) v, []) \<and>
         (registered e \<and> e_funcName e = Some f \<longrightarrow>
            rewrite_sub e w =
              (if sublist (''_'' @ f) (property w) then w
               else w\<lparr>funcName := Some f, funcArgs := e_funcArgs e,
                       field := Some (property w), property := property w @ ''_'' @ f\<rparr>)) \<and>
         (filter registered (all_subs entities) = [e] \<and> e_funcName e = Some f \<longrightarrow>
            rewrite_spec ps v =
              (if sublist (''_'' @ f) (property v) then v
               else v\<lparr>funcName := Some f, funcArgs := e_funcArgs e,
                       field := Some (property v), property := property v @ ''_'' @ f\<rparr>, []) \<and>
            (if suffix (''_'' @ f) (property v) then rewrite_spec ps v = (v, []) else True))"
proof (intro conjI impI)
  show all: "rewrite_spec ps v = (fold rewrite_sub (filter registered (all_subs entities)) v, [])"
    using assms fold_registered_only [of "all_subs entities" v]
    by (simp add: rewrite_spec_def fold_entities)
  show "rewrite_sub e w =
          (if sublist (''_'' @ f) (property w) then w
           else w\<lparr>funcName := Some f, funcArgs := e_funcArgs e,
                   field := Some (property w), property := property w @ ''_'' @ f\<rparr>)"
    if "registered e \<and> e_funcName e = Some f"
  proof -
    from that have "e_funcName e = Some f" and "f \<in> set names"
      by (auto simp: registered_def)
    then show ?thesis by (rule rewrite_sub_registered)
  qed
  show "rewrite_spec ps v =
          (if sublist (''_'' @ f) (property v) then v
           else v\<lparr>funcName := Some f, funcArgs := e_funcArgs e,
                   field := Some (property v), property := property v @ ''_'' @ f\<rparr>, [])"
    if h: "filter registered (all_subs entities) = [e] \<and> e_funcName e = Some f"
  proof -
    from h have "e \<in> set (filter registered (all_subs entities))" by simp
    then have "registered e" by simp
    with h have f: "f \<in> set names" by (simp add: registered_def)
    from h all have "rewrite_spec ps v = (rewrite_sub e v, [])" by simp
    then show ?thesis using rewrite_sub_registered [of e f v] h f by simp
  qed
  then show "if suffix (''_'' @ f) (property v) then rewrite_spec ps v = (v, []) else True"
    if h: "filter registered (all_subs entities) = [e] \<and> e_funcName e = Some f"
    using that by (auto dest: suffix_imp_sublist)
qed

text \<open>The statement on the settings of the source comment: \<open>patient_id\<close> with the rule \<open>unique('patient_id')\<close>.\<close>

theorem rewrite_spec_extra_validator_example:
  "example_parse (rule (spec_of ''patient_id'' ''unique('patient_id')'')) =
     Inr [Entity [SubEntity (Some ''unique'') [''patient_id'']]] \<and>
   filter registered (all_subs [Entity [SubEntity (Some ''unique'') [''patient_id'']]]) =
     [SubEntity (Some ''unique'') [''patient_id'']] \<and>
   rewrite_spec example_parse (spec_of ''patient_id'' ''unique('patient_id')'') =
     (\<lparr>property = ''patient_id_unique'', rule = ''unique('patient_id')'', message = None,
       translation_key = None, funcName = Some ''unique'', funcArgs = [''patient_id''],
       field = Some ''patient_id''\<rparr>, [])"
proof -
  let ?e = "SubEntity (Some ''unique'') [''patient_id'']"
  let ?v = "spec_of ''patient_id'' ''unique('patient_id')''"
  have p: "example_parse (rule ?v) = Inr [Entity [?e]]"
    by (simp add: example_parse_def spec_of_def)
  have r: "filter registered (all_subs [Entity [?e]]) = [?e]"
    by (simp add: registered_def all_subs_def names_def)
  have n: "e_funcName ?e = Some ''unique''" by simp
  have s: "\<not> sublist (''_'' @ ''unique'') (property ?v)"
    by (simp add: spec_of_def indexOf_absent [symmetric] indexOf_def)
  note t = rewrite_spec_extra_validator [of example_parse ?v "[Entity [?e]]" ?e "''unique''", OF p]
  have "rewrite_spec example_parse ?v =
          (if sublist (''_'' @ ''unique'') (property ?v) then ?v
           else ?v\<lparr>funcName := Some ''unique'', funcArgs := e_funcArgs ?e,
                    field := Some (property ?v), property := property ?v @ ''_'' @ ''unique''\<rparr>, [])"
    using t [THEN conjunct2, THEN conjunct2, THEN mp, OF conjI [OF r n], THEN conjunct1] .
  with p r s show ?thesis by (simp add: spec_of_def)
qed

text \<open>
  The guard \<open>v.property.indexOf('_' + e.funcName) === -1\<close> looks for an
  occurrence anywhere, not at the end: the property \<open>patient_unique_id\<close>
  does not end with \<open>_unique\<close>, and still the rewriter leaves a spec on it
  with the rule \<open>unique('patient_id')\<close> as it is.
\<close>

theorem rewrite_spec_contains_example:
  "\<not> suffix ''_unique'' (property (spec_of ''patient_unique_id'' ''unique('patient_id')'')) \<and>
   rewrite_spec example_parse (spec_of ''patient_unique_id'' ''unique('patient_id')'') =
     (spec_of ''patient_unique_id'' ''unique('patient_id')'', [])"
  by (simp add: spec_of_def suffix_to_prefix rewrite_spec_def example_parse_def
      rewrite_entity_def rewrite_sub_def names_def indexOf_def)

text \<open>
  Claim C5. The rule rewriter is idempotent: a second pass over the list that
  the first pass produced changes no spec (so no property name, and no
  suffix is doubled) and collects the same parse errors.
\<close>

theorem rewrite_idempotent:
  "rewrite ps (fst (rewrite ps validations)) = rewrite ps validations"
  by (simp add: rewrite_def rewrite_spec_idem comp_def)

subsection \<open>The error reducer\<close>

lemma extractErrors_fold:
  "fold (\<lambda>(key, valid) memo.
           if \<not> valid \<and> key \<notin> set ign
           then memo @ [Descriptor (''invalid_'' @ key) (messages key)] else memo) result acc =
   acc @ map (\<lambda>(key, valid). Descriptor (''invalid_'' @ key) (messages key))
           (filter (\<lambda>(key, valid). \<not> valid \<and> key \<notin> set ign) result)"
  by (induction result arbitrary: acc) (auto split: prod.splits)

lemma extractErrors_map_filter:
  "extractErrors result messages ig =
     map (\<lambda>(key, valid). Descriptor (''invalid_'' @ key) (messages key))
       (filter (\<lambda>(key, valid). \<not> valid \<and> key \<notin> set (ignore_list ig)) result)"
  unfolding extractErrors_def by (simp add: extractErrors_fold)

lemma extractErrors_ignored:
  "k \<in> set (ignore_list ig) \<Longrightarrow> Descriptor (''invalid_'' @ k) m \<notin> set (extractErrors result messages ig)"
  by (auto simp: extractErrors_map_filter)

lemma extractErrors_distinct:
  "distinct (map fst result) \<Longrightarrow> distinct (extractErrors result messages ig)"
proof -
  assume d: "distinct (map fst result)"
  let ?g = "\<lambda>key. Descriptor (''invalid_'' @ key) (messages key)"
  let ?ys = "filter (\<lambda>(key, valid). \<not> valid \<and> key \<notin> set (ignore_list ig)) result"
  have "extractErrors result messages ig = map ?g (map fst ?ys)"
    by (simp add: extractErrors_map_filter case_prod_beta comp_def)
  moreover have "distinct (map fst ?ys)"
    using d by (rule distinct_map_filter)
  moreover have "inj_on ?g (set (map fst ?ys))"
    by (auto simp: inj_on_def)
  ultimately show ?thesis
    by (simp only: distinct_map [of ?g "map fst ?ys"] simp_thms)
qed

text \<open>
  Claim C9, as amended. For every result map, messages map and ignore
  argument, \<open>extractErrors\<close> returns one descriptor
  \<open>{code: 'invalid_' + property, message: messages[property]}\<close> per property
  whose value is false and which is not in the ignore list, in the iteration
  order of the result map (and no descriptor twice, the keys of an object
  being distinct); a property of the ignore list never appears in the output;
  an array of names is taken as it is, and a single name that is not the
  empty string is treated as the one-element list. The empty string, being
  falsy, is replaced by the empty list as an absent argument is.
\<close>

theorem extractErrors_spec:
  "extractErrors result messages ig =
     map (\<lambda>(key, valid). Descriptor (''invalid_'' @ key) (messages key))
       (filter (\<lambda>(key, valid). \<not> valid \<and> key \<notin> set (ignore_list ig)) result) \<and>
   (\<forall>k \<in> set (ignore_list ig). \<forall>m. Descriptor (''invalid_'' @ k) m \<notin> set (extractErrors result messages ig)) \<and>
   (distinct (map fst result) \<longrightarrow> distinct (extractErrors result messages ig)) \<and>
   (s \<noteq> [] \<longrightarrow> ignore_list (IgnName s) = [s] \<and>
      extractErrors result messages (IgnName s) = extractErrors result messages (IgnList [s])) \<and>
   ignore_list (IgnList xs) = xs \<and>
   extractErrors result messages (IgnName []) = extractErrors result messages IgnAbsent"
proof (intro conjI)
  show "extractErrors result messages ig =
     map (\<lambda>(key, valid). Descriptor (''invalid_'' @ key) (messages key))
       (filter (\<lambda>(key, valid). \<not> valid \<and> key \<notin> set (ignore_list ig)) result)"
    by (rule extractErrors_map_filter)
  show "\<forall>k \<in> set (ignore_list ig). \<forall>m. Descriptor (''invalid_'' @ k) m \<notin> set (extractErrors result messages ig)"
    using extractErrors_ignored by blast
  show "distinct (map fst result) \<longrightarrow> distinct (extractErrors result messages ig)"
    using extractErrors_distinct by blast
  show "s \<noteq> [] \<longrightarrow> ignore_list (IgnName s) = [s] \<and>
      extractErrors result messages (IgnName s) = extractErrors result messages (IgnList [s])"
    by (simp add: extractErrors_def ignore_list_def)
  show "ignore_list (IgnList xs) = xs"
    by (simp add: ignore_list_def)
  show "extractErrors result messages (IgnName []) = extractErrors result messages IgnAbsent"
    by (simp add: extractErrors_def ignore_list_def)
qed

text \<open>The statement at a result map with three properties, one of them ignored by a single name.\<close>

theorem extractErrors_spec_witness:
  "''age'' \<in> set (ignore_list (IgnName ''age'')) \<and>
   Descriptor ''invalid_age'' None \<notin>
     set (extractErrors [(''patient_id'', False), (''name'', True), (''age'', False)]
            [''patient_id'' \<mapsto> ''Patient ID must be 5 numbers.''] (IgnName ''age'')) \<and>
   distinct (map fst [(''patient_id'', False), (''name'', True), (''age'', False)]) \<and>
   distinct (extractErrors [(''patient_id'', False), (''name'', True), (''age'', False)]
     [''patient_id'' \<mapsto> ''Patient ID must be 5 numbers.''] (IgnName ''age'')) \<and>
   ''age'' \<noteq> [] \<and>
   extractErrors [(''patient_id'', False), (''name'', True), (''age'', False)]
     [''patient_id'' \<mapsto> ''Patient ID must be 5 numbers.''] (IgnName ''age'') =
   extractErrors [(''patient_id'', False), (''name'', True), (''age'', False)]
     [''patient_id'' \<mapsto> ''Patient ID must be 5 numbers.''] (IgnList [''age'']) \<and>
   extractErrors [(''patient_id'', False), (''name'', True), (''age'', False)]
     [''patient_id'' \<mapsto> ''Patient ID must be 5 numbers.''] (IgnName ''age'') =
     [Descriptor ''invalid_patient_id'' (Some ''Patient ID must be 5 numbers.'')]"
proof -
  let ?R = "[(''patient_id'', False), (''name'', True), (''age'', False)]"
  let ?M = "[''patient_id'' \<mapsto> ''Patient ID must be 5 numbers.'']"
  note t = extractErrors_spec [of ?R ?M "IgnName ''age''" "''age''"]
  have a: "''age'' \<in> set (ignore_list (IgnName ''age''))" by (simp add: ignore_list_def)
  have d: "distinct (map fst ?R)" by simp
  have n: "''age'' \<noteq> []" by simp
  have 1: "Descriptor ''invalid_age'' None \<notin> set (extractErrors ?R ?M (IgnName ''age''))"
    using t [THEN conjunct2, THEN conjunct1, THEN bspec, OF a, THEN spec, of None] by simp
  have 2: "distinct (extractErrors ?R ?M (IgnName ''age''))"
    using t [THEN conjunct2, THEN conjunct2, THEN conjunct1, THEN mp, OF d] .
  have 3: "extractErrors ?R ?M (IgnName ''age'') = extractErrors ?R ?M (IgnList [''age''])"
    using t [THEN conjunct2, THEN conjunct2, THEN conjunct2, THEN conjunct1, THEN mp, OF n]
    by (rule conjunct2)
  have 4: "extractErrors ?R ?M (IgnName ''age'') =
     [Descriptor ''invalid_patient_id'' (Some ''Patient ID must be 5 numbers.'')]"
    by (simp add: extractErrors_def ignore_list_def)
  show ?thesis using a d n 1 2 3 4 by (intro conjI)
qed

text \<open>
  The claim C9 as it was written takes every single value as a one-element
  set. With the empty string as the single ignore value, the property of
  that name is still reported: \<open>ignores || []\<close> has replaced the value before
  it is wrapped.
\<close>

theorem empty_ignore_counterexample:
  "extractErrors [([], False)] Map.empty (IgnName []) = [Descriptor ''invalid_'' None]"
  by (simp add: extractErrors_def ignore_list_def)

subsection \<open>The series of extra validators\<close>

lemma map_of_assign: "map_of (assign kvs k v) = (map_of kvs)(k \<mapsto> v)"
  by (induction kvs k v rule: assign.induct) auto

lemma registry_names: "extra_validations pf db f \<noteq> None \<longleftrightarrow> f \<in> set names"
  by (simp add: extra_validations_def names_def)

lemma iteratee_shape:
  "iteratee pf db a v results =
     (step_events pf db a v,
      (if answer pf db a v = Some False then assign results (property v) False else results),
      step_end pf db a v)"
  by (simp add: iteratee_def step_events_def step_end_def answer_def
      split: option.splits prod.splits call_result.splits)

lemma run_series_Nil: "run_series pf db a [] results = ([], results, Done)"
  by (simp add: run_series_def)

lemma run_series_Cons:
  "run_series pf db a (v # vs) results =
     (let results' = (if answer pf db a v = Some False then assign results (property v) False else results)
      in if step_end pf db a v = Done
         then (step_events pf db a v @ fst (run_series pf db a vs results'),
               snd (run_series pf db a vs results'))
         else (step_events pf db a v, results', step_end pf db a v))"
  by (simp add: run_series_def iteratee_shape Let_def split: prod.splits)

lemma series_false_stays:
  "map_of results p = Some False \<Longrightarrow> map_of (fst (snd (run_series pf db a vs results))) p = Some False"
  by (induction vs arbitrary: results)
     (auto simp: run_series_Nil run_series_Cons map_of_assign Let_def)

lemma series_untouched:
  "\<forall>v\<in>set vs. property v = p \<longrightarrow> answer pf db a v \<noteq> Some False \<Longrightarrow>
   map_of (fst (snd (run_series pf db a vs results))) p = map_of results p"
  by (induction vs arbitrary: results)
     (auto simp: run_series_Nil run_series_Cons map_of_assign Let_def)

lemma series_writes_false:
  "map_of (fst (snd (run_series pf db a vs results))) q = Some b \<Longrightarrow>
   map_of results q = Some b \<or> b = False"
proof (induction vs arbitrary: results)
  case Nil
  then show ?case by (simp add: run_series_Nil)
next
  case (Cons v vs)
  let ?r = "if answer pf db a v = Some False then assign results (property v) False else results"
  have step: "map_of ?r q = Some b \<Longrightarrow> map_of results q = Some b \<or> b = False"
    by (auto simp: map_of_assign split: if_splits)
  show ?case
  proof (cases "step_end pf db a v = Done")
    case True
    with Cons.prems have "map_of (fst (snd (run_series pf db a vs ?r))) q = Some b"
      by (simp add: run_series_Cons Let_def)
    then have "map_of ?r q = Some b \<or> b = False" by (rule Cons.IH)
    with step show ?thesis by blast
  next
    case False
    with Cons.prems have "map_of ?r q = Some b"
      by (simp add: run_series_Cons Let_def)
    with step show ?thesis by blast
  qed
qed

lemma step_keeps:
  "answer pf db a v \<noteq> Some False \<Longrightarrow> fst (snd (iteratee pf db a v results)) = results"
  by (simp add: iteratee_shape)

lemma negate_events: "fst (negate x) = fst x"
  by (cases x) (simp add: negate_def split: call_result.splits)

lemma invocations_append: "invocations (xs @ ys) = invocations xs @ invocations ys"
  by (simp add: invocations_def)

lemma invocations_queries: "invocations (map Query ks) = []"
  by (induction ks) (simp_all add: invocations_def)

lemma x_exists_no_invoke: "invocations (fst (x_exists pf db doc fs opts)) = []"
  by (simp add: x_exists_def Let_def invocations_append invocations_queries
      split: sum.splits option.splits)
     (simp add: invocations_def)

lemma unique_no_invoke: "invocations (fst (unique pf db doc v)) = []"
  by (simp add: unique_def negate_events x_exists_no_invoke)

lemma uniqueWithin_no_invoke: "invocations (fst (uniqueWithin pf db doc v)) = []"
  by (simp add: uniqueWithin_def negate_events x_exists_no_invoke Let_def)
     (simp add: invocations_def)

lemma exists_events:
  "fst (exists pf db doc v) =
     fst (x_exists pf db doc [arg (funcArgs v) 1]
            \<lparr>startDate = None, additionalFilter = Some (''form:'' @ arg (funcArgs v) 0)\<rparr>)"
  by (simp add: exists_def Let_def split: prod.splits call_result.splits)

lemma exists_no_invoke: "invocations (fst (exists pf db doc v)) = []"
  by (simp only: exists_events x_exists_no_invoke)

lemma isISOWeek_events: "fst (isISOWeek pf doc v) = []"
  by (simp add: isISOWeek_def Let_def split: option.splits)

lemma validator_no_invoke:
  "extra_validations pf db f = Some validator \<Longrightarrow> invocations (fst (validator doc v)) = []"
  by (auto simp: extra_validations_def unique_no_invoke uniqueWithin_no_invoke
      exists_no_invoke isISOWeek_events invocations_def [of "[]"] split: if_splits)

lemma step_invocations:
  "invocations (step_events pf db a v) = (if called v then [v] else [])"
proof (cases "funcName v")
  case None
  then show ?thesis by (simp add: step_events_def iteratee_def called_def invocations_def)
next
  case (Some f)
  show ?thesis
  proof (cases "f \<noteq> [] \<and> f \<in> set names")
    case False
    then have "f = [] \<or> extra_validations pf db f = None"
      using registry_names [of pf db f] by auto
    with Some False show ?thesis
      by (auto simp: step_events_def iteratee_def called_def invocations_def)
  next
    case True
    then obtain validator where val: "extra_validations pf db f = Some validator"
      using registry_names [of pf db f] by auto
    have "invocations (fst (validator a v)) = []" using val by (rule validator_no_invoke)
    then have "invocations (Invoke v # fst (validator a v)) = [v]"
      by (simp add: invocations_def)
    with Some True val show ?thesis
      by (auto simp: step_events_def iteratee_def called_def
          split: prod.splits call_result.splits)
  qed
qed

lemma failed_called: "step_end pf db a v = Failed e \<Longrightarrow> called v"
  using registry_names [of pf db "the (funcName v)"]
  by (auto simp: step_end_def iteratee_def called_def
      split: option.splits if_splits prod.splits call_result.splits)

lemma series_events:
  "fst (run_series pf db a vs results) = concat (map (step_events pf db a) (rounds pf db a vs))"
  by (induction vs arbitrary: results) (simp_all add: run_series_Nil run_series_Cons Let_def rounds_def)

lemma rounds_abort:
  assumes "\<forall>v\<in>set pre. step_end pf db a v = Done" and "step_end pf db a v2 \<noteq> Done"
  shows "rounds pf db a (pre @ v2 # post) = pre @ [v2]"
  using assms by (simp add: rounds_def takeWhile_append2 dropWhile_append2)

lemma rounds_all:
  assumes "\<forall>v\<in>set vs. step_end pf db a v = Done"
  shows "rounds pf db a vs = vs"
proof -
  have "takeWhile (\<lambda>v. step_end pf db a v = Done) vs = vs"
    using assms by (simp add: takeWhile_eq_all_conv)
  moreover have "dropWhile (\<lambda>v. step_end pf db a v = Done) vs = []"
    using assms by (simp add: dropWhile_eq_Nil_conv)
  ultimately show ?thesis by (simp only: rounds_def take.simps(1) append_Nil2)
qed

lemma invocations_rounds:
  "invocations (concat (map (step_events pf db a) vs)) = filter called vs"
  by (induction vs) (simp_all add: invocations_append step_invocations, simp add: invocations_def)

subsection \<open>The example configuration, evaluated\<close>

lemma rewrite_example:
  "rewrite example_parse example_validations = ([spec_of ''name'' ''lenMin(1)'', unique_spec], [])"
  by (simp add: rewrite_def rewrite_spec_def example_validations_def spec_of_def example_parse_def
      rewrite_entity_def rewrite_sub_def names_def indexOf_def unique_spec_def)

lemma key_example: "request_key example_platform (attributes_of example_doc) ''patient_id'' = ''patient_id:x''"
  by (simp add: request_key_def attributes_of_def example_doc_def template_def lower_ascii_def example_platform_def
      lower_char_def)

lemma key_name: "request_key example_platform (attributes_of example_doc) ''name'' = ''name:''"
  by (simp add: request_key_def attributes_of_def example_doc_def template_def lower_ascii_def example_platform_def)

lemma id_example: "attributes_of example_doc ''_id'' = Some (JStr ''self'')"
  by (simp add: attributes_of_def example_doc_def)

lemma unique_spec_simps:
  "funcName unique_spec = Some ''unique''" "funcArgs unique_spec = [''patient_id'']"
  "property unique_spec = ''patient_id_unique''" "rule unique_spec = ''unique('patient_id')''"
  "message unique_spec = None" "translation_key unique_spec = None"
  by (simp_all add: unique_spec_def)

lemma name_spec_simps:
  "funcName name_spec = Some ''unique''" "funcArgs name_spec = [''name'']"
  "property name_spec = ''name_unique''"
  by (simp_all add: name_spec_def)

lemma spec_of_simps:
  "funcName (spec_of p r) = None" "property (spec_of p r) = p" "rule (spec_of p r) = r"
  "message (spec_of p r) = None" "translation_key (spec_of p r) = None"
  by (simp_all add: spec_of_def)

lemma unique_failing:
  "unique example_platform failing_db (attributes_of example_doc) unique_spec =
     ([Query ''patient_id:x''], Result (Some (DbError ''timeout'')) (Some True))"
  by (simp add: unique_def x_exists_def unique_spec_simps key_example failing_db_def negate_def js_not_def)

lemma iteratee_failing:
  "iteratee example_platform failing_db (attributes_of example_doc) unique_spec results =
     ([Invoke unique_spec, Query ''patient_id:x''], results, Failed (DbError ''timeout''))"
  by (simp add: iteratee_def extra_validations_def unique_failing unique_spec_simps)

lemma iteratee_plain: "iteratee pf db a (spec_of p r) results = ([], results, Done)"
  by (simp add: iteratee_def spec_of_simps)

lemma answer_plain: "answer pf db a (spec_of p r) = None"
  by (simp add: answer_def spec_of_simps)

lemma rules_example:
  "getRules [spec_of ''name'' ''lenMin(1)'', unique_spec] =
     [(''name'', ''lenMin(1)''), (''patient_id_unique'', ''unique('patient_id')'')]"
  by (simp add: getRules_def spec_of_simps unique_spec_simps)

lemma fill_example:
  "example_fill [(''name'', ''lenMin(1)''), (''patient_id_unique'', ''unique('patient_id')'')]
     (attributes_of example_doc) = (attributes_of example_doc)(''patient_id_unique'' \<mapsto> JStr [])"
  by (simp add: example_fill_def attributes_of_def example_doc_def)

lemma sync_example:
  "pupil_validate example_engine [(''name'', ''lenMin(1)''), (''patient_id_unique'', ''unique('patient_id')'')]
     (attributes_of example_doc) =
     Inr ([(''name'', False), (''patient_id_unique'', True)],
          (attributes_of example_doc)(''patient_id_unique'' \<mapsto> JStr []))"
  by (simp add: example_engine_def fill_example) (simp add: attributes_of_def example_doc_def)

lemma key_after_engine:
  "request_key example_platform ((attributes_of example_doc)(''patient_id_unique'' \<mapsto> JStr []))
     ''patient_id'' = ''patient_id:x''"
  using key_example by (simp add: request_key_def)

lemma unique_failing_after_engine:
  "unique example_platform failing_db ((attributes_of example_doc)(''patient_id_unique'' \<mapsto> JStr []))
     unique_spec =
     ([Query ''patient_id:x''], Result (Some (DbError ''timeout'')) (Some True))"
  by (simp add: unique_def x_exists_def unique_spec_simps key_after_engine failing_db_def negate_def
      js_not_def)

lemma iteratee_failing_after_engine:
  "iteratee example_platform failing_db ((attributes_of example_doc)(''patient_id_unique'' \<mapsto> JStr []))
     unique_spec results =
     ([Invoke unique_spec, Query ''patient_id:x''], results, Failed (DbError ''timeout''))"
  by (simp add: iteratee_def extra_validations_def unique_failing_after_engine unique_spec_simps)

lemma messages_example:
  "getMessages example_engine [spec_of ''name'' ''lenMin(1)'', unique_spec] l = (\<lambda>_. None)"
  by (simp add: getMessages_def has_message_def spec_of_simps unique_spec_simps)

lemma unique_flaky_name:
  "unique example_platform flaky_db (attributes_of example_doc) name_spec = ([Query ''name:''], Result None (Some True))"
  by (simp add: unique_def x_exists_def name_spec_simps key_name flaky_db_def negate_def js_not_def
      x_getIntersection_def)

lemma unique_flaky_patient:
  "unique example_platform flaky_db (attributes_of example_doc) unique_spec =
     ([Query ''patient_id:x''], Result (Some (DbError ''timeout'')) (Some True))"
  by (simp add: unique_def x_exists_def unique_spec_simps key_example flaky_db_def negate_def js_not_def)

lemma step_end_name:
  "step_end example_platform flaky_db (attributes_of example_doc) name_spec = Done"
  by (simp add: step_end_def iteratee_def extra_validations_def unique_flaky_name name_spec_simps)

lemma step_end_patient:
  "step_end example_platform flaky_db (attributes_of example_doc) unique_spec = Failed (DbError ''timeout'')"
  by (simp add: step_end_def iteratee_def extra_validations_def unique_flaky_patient unique_spec_simps)

lemma unique_example:
  "unique example_platform example_db (attributes_of example_doc) unique_spec =
     ([Query ''patient_id:x'', AllDocs [''r1'', ''r2'']], Result None (Some False))"
  by (simp add: unique_def x_exists_def unique_spec_simps key_example example_db_def negate_def
      js_not_def x_getIntersection_def id_example example_fetch_def
      found_row_def truthy_num_def)

lemma answer_example:
  "answer example_platform example_db (attributes_of example_doc) unique_spec = Some False"
  by (simp add: answer_def extra_validations_def unique_example unique_spec_simps)

lemma unique_empty:
  "unique example_platform empty_db (attributes_of example_doc) unique_spec =
     ([Query ''patient_id:x''], Result None (Some True))"
  by (simp add: unique_def x_exists_def unique_spec_simps key_example empty_db_def negate_def
      js_not_def x_getIntersection_def)

lemma answer_empty:
  "answer example_platform empty_db (attributes_of example_doc) unique_spec = Some True"
  by (simp add: answer_def extra_validations_def unique_empty unique_spec_simps)

subsection \<open>Claims on the series\<close>

text \<open>
  Claim C2. The series only ever writes \<open>false\<close> into the result set. With
  \<open>results\<close> the result set of the grammar engine and \<open>vs\<close> the rewritten
  specs, as \<open>validate\<close> passes them: a property that is false before the
  series is false after it; every value after the series is the value before
  it or \<open>false\<close>; a round whose validator hands over anything but \<open>false\<close>
  (\<open>true\<close> in particular) leaves the result set as it is; and a property
  none of whose validators hands over \<open>false\<close> keeps its value.
\<close>

theorem series_only_downgrades:
  "(map_of results p = Some False \<longrightarrow>
      map_of (fst (snd (run_series pf db a vs results))) p = Some False) \<and>
   (\<forall>q b. map_of (fst (snd (run_series pf db a vs results))) q = Some b \<longrightarrow>
      map_of results q = Some b \<or> b = False) \<and>
   (answer pf db a v \<noteq> Some False \<longrightarrow> fst (snd (iteratee pf db a v results)) = results) \<and>
   ((\<forall>v\<in>set vs. property v = p \<longrightarrow> answer pf db a v \<noteq> Some False) \<longrightarrow>
      map_of (fst (snd (run_series pf db a vs results))) p = map_of results p)"
  using series_false_stays [of results p pf db a vs] series_untouched [of vs p pf db a results]
    series_writes_false [of pf db a vs results] step_keeps [of pf db a v results]
  by blast

text \<open>
  The statement on the example document, with a datastore that holds no other document.
\<close>

theorem series_only_downgrades_witness:
  "map_of [(''name'', False), (''patient_id_unique'', True)] ''name'' = Some False \<and>
   map_of (fst (snd (run_series example_platform empty_db (attributes_of example_doc)
                       [spec_of ''name'' ''lenMin(1)'', unique_spec]
                       [(''name'', False), (''patient_id_unique'', True)]))) ''name'' = Some False \<and>
   answer example_platform empty_db (attributes_of example_doc) unique_spec = Some True \<and>
   fst (snd (iteratee example_platform empty_db (attributes_of example_doc) unique_spec
               [(''name'', False), (''patient_id_unique'', True)])) =
     [(''name'', False), (''patient_id_unique'', True)] \<and>
   map_of (fst (snd (run_series example_platform empty_db (attributes_of example_doc)
                       [spec_of ''name'' ''lenMin(1)'', unique_spec]
                       [(''name'', False), (''patient_id_unique'', True)]))) ''patient_id_unique'' =
     Some True"
proof -
  let ?r = "[(''name'', False), (''patient_id_unique'', True)]"
  let ?vs = "[spec_of ''name'' ''lenMin(1)'', unique_spec]"
  let ?a = "attributes_of example_doc"
  note t = series_only_downgrades [of ?r _ example_platform empty_db ?a ?vs unique_spec]
  have 1: "map_of ?r ''name'' = Some False" by simp
  have 2: "answer example_platform empty_db ?a unique_spec \<noteq> Some False"
    by (simp add: answer_empty)
  have 3: "\<forall>v\<in>set ?vs. property v = ''patient_id_unique'' \<longrightarrow>
             answer example_platform empty_db ?a v \<noteq> Some False"
    by (simp add: answer_empty answer_plain)
  have a: "map_of (fst (snd (run_series example_platform empty_db ?a ?vs ?r))) ''name'' = Some False"
    using t [of "''name''"] 1 by blast
  have b: "fst (snd (iteratee example_platform empty_db ?a unique_spec ?r)) = ?r"
    using t [of "''name''"] 2 by blast
  have c: "map_of (fst (snd (run_series example_platform empty_db ?a ?vs ?r))) ''patient_id_unique'' =
      map_of ?r ''patient_id_unique''"
    using t [of "''patient_id_unique''"] 3 by blast
  show ?thesis using 1 a b c by (simp add: answer_empty)
qed

text \<open>
  Claim C3. The extra validators run one after the other in the order of
  the list: the events of the series are the events of the rounds, round by
  round, and the specs invoked are the specs with a validator among
  \<open>rounds\<close>, in that order. If the validator of \<open>v2\<close> reports an error
  and no round before it fails, the invocations are those of the specs before
  \<open>v2\<close> and \<open>v2\<close> itself: no spec after \<open>v2\<close> is invoked. With no
  failing round every spec with a validator is invoked.
\<close>

theorem series_sequential_abort:
  "fst (run_series pf db a vs results) = concat (map (step_events pf db a) (rounds pf db a vs)) \<and>
   invocations (fst (run_series pf db a vs results)) = filter called (rounds pf db a vs) \<and>
   ((\<forall>v\<in>set pre. step_end pf db a v = Done) \<and> step_end pf db a v2 = Failed e \<longrightarrow>
      invocations (fst (run_series pf db a (pre @ v2 # post) results)) = filter called pre @ [v2]) \<and>
   ((\<forall>v\<in>set vs. step_end pf db a v = Done) \<longrightarrow>
      invocations (fst (run_series pf db a vs results)) = filter called vs)"
proof (intro conjI impI)
  show "fst (run_series pf db a vs results) = concat (map (step_events pf db a) (rounds pf db a vs))"
    by (rule series_events)
  show "invocations (fst (run_series pf db a vs results)) = filter called (rounds pf db a vs)"
    by (simp add: series_events invocations_rounds)
  show "invocations (fst (run_series pf db a (pre @ v2 # post) results)) = filter called pre @ [v2]"
    if h: "(\<forall>v\<in>set pre. step_end pf db a v = Done) \<and> step_end pf db a v2 = Failed e"
  proof -
    from h have "rounds pf db a (pre @ v2 # post) = pre @ [v2]"
      by (intro rounds_abort) simp_all
    moreover from h have "called v2" by (blast intro: failed_called)
    moreover have "invocations (fst (run_series pf db a (pre @ v2 # post) results)) =
        filter called (rounds pf db a (pre @ v2 # post))"
      by (simp only: series_events invocations_rounds)
    ultimately show ?thesis by simp
  qed
  show "invocations (fst (run_series pf db a vs results)) = filter called vs"
    if "\<forall>v\<in>set vs. step_end pf db a v = Done"
    using that by (simp only: series_events invocations_rounds rounds_all)
qed

text \<open>
  The statement on four specs: the datastore fails for the second, and the
  third and the fourth are not invoked.
\<close>

theorem series_sequential_abort_witness:
  "step_end example_platform flaky_db (attributes_of example_doc) name_spec = Done \<and>
   step_end example_platform flaky_db (attributes_of example_doc) unique_spec = Failed (DbError ''timeout'') \<and>
   invocations (fst (run_series example_platform flaky_db (attributes_of example_doc)
                       ([name_spec] @ unique_spec # [within_spec, name_spec]) [])) =
     [name_spec, unique_spec]"
proof -
  have c: "called name_spec" by (simp add: called_def name_spec_simps names_def)
  have h: "(\<forall>v\<in>set [name_spec]. step_end example_platform flaky_db (attributes_of example_doc) v = Done) \<and>
      step_end example_platform flaky_db (attributes_of example_doc) unique_spec = Failed (DbError ''timeout'')"
    by (simp add: step_end_name step_end_patient)
  from series_sequential_abort [of example_platform flaky_db "attributes_of example_doc" "[]" "[]"
      "[name_spec]" unique_spec "DbError ''timeout''" "[within_spec, name_spec]"]
  have "invocations (fst (run_series example_platform flaky_db (attributes_of example_doc)
                       ([name_spec] @ unique_spec # [within_spec, name_spec]) [])) =
     filter called [name_spec] @ [unique_spec]"
    using h by blast
  with c h show ?thesis by simp
qed

text \<open>
  What \<open>validate\<close> does with an error of the series, for any engine and
  datastore: the final function of \<open>async.eachSeries\<close> is declared without
  parameters, so the error \<open>e\<close> is not in what the callback receives, which
  is the reduction of the result set as the series left it and holds
  descriptors only.
\<close>

lemma validate_series_error_dropped:
  assumes "rewrite (parse eng) validations0 = (validations, [])"
    and "pupil_validate eng (getRules validations) (attributes_of doc) = Inr (result, attributes)"
    and "run_series pf db attributes validations result = (evs, final, Failed e)"
  shows "validate eng pf db doc validations0 ig =
           (PupilValidate # evs @ [ExtractErrors],
            Callback (extractErrors final (getMessages eng validations (getLocale eng doc)) ig))"
  using assms by (simp add: validate_def)

lemma extractErrors_descriptors_only: "Msg s \<notin> set (extractErrors result messages ig)"
  by (auto simp: extractErrors_map_filter)

text \<open>
  Claim C1, evaluated at a failing input. The name of the document is empty
  and the datastore fails the query of the uniqueness check. The validator
  hands the error to the series, the series stops, and the final function of
  the series takes no error argument: the callback of \<open>validate\<close> receives
  the field-level descriptor of the name and nothing of the datastore error.
\<close>

theorem validate_swallows_validator_error:
  "validate example_engine example_platform failing_db example_doc example_validations IgnAbsent =
     ([PupilValidate, Invoke unique_spec, Query ''patient_id:x'', ExtractErrors],
      Callback [Descriptor ''invalid_name'' None])"
proof -
  have p: "parse example_engine = example_parse" by (simp add: example_engine_def)
  have s: "run_series example_platform failing_db
             ((attributes_of example_doc)(''patient_id_unique'' \<mapsto> JStr []))
             [spec_of ''name'' ''lenMin(1)'', unique_spec] [(''name'', False), (''patient_id_unique'', True)] =
           ([Invoke unique_spec, Query ''patient_id:x''],
            [(''name'', False), (''patient_id_unique'', True)], Failed (DbError ''timeout''))"
    by (simp add: run_series_def iteratee_plain iteratee_failing_after_engine)
  have e: "extractErrors [(''name'', False), (''patient_id_unique'', True)] (\<lambda>_. None) IgnAbsent =
      [Descriptor ''invalid_name'' None]"
    by (simp add: extractErrors_def ignore_list_def)
  show ?thesis
    by (simp add: validate_def p rewrite_example rules_example sync_example s messages_example e)
qed

subsection \<open>A property that holds the name of its validator\<close>

lemma rewrite_contains_example:
  "rewrite example_parse [spec_of ''patient_unique_id'' ''unique('patient_id')''] =
     ([spec_of ''patient_unique_id'' ''unique('patient_id')''], [])"
  by (simp add: rewrite_def rewrite_spec_def spec_of_def example_parse_def
      rewrite_entity_def rewrite_sub_def names_def indexOf_def)

lemma rewrite_plain_example:
  "rewrite example_parse [spec_of ''patient_id'' ''unique('patient_id')''] = ([unique_spec], [])"
  by (simp add: rewrite_def rewrite_spec_def spec_of_def example_parse_def
      rewrite_entity_def rewrite_sub_def names_def indexOf_def unique_spec_def)

lemma sync_contains_example:
  "pupil_validate example_engine [(''patient_unique_id'', ''unique('patient_id')'')]
     (attributes_of example_doc) =
     Inr ([(''patient_unique_id'', True)],
          (attributes_of example_doc)(''patient_unique_id'' \<mapsto> JStr []))"
  by (simp add: example_engine_def example_fill_def attributes_of_def example_doc_def)

lemma sync_plain_example:
  "pupil_validate example_engine [(''patient_id_unique'', ''unique('patient_id')'')]
     (attributes_of example_doc) =
     Inr ([(''patient_id_unique'', True)],
          (attributes_of example_doc)(''patient_id_unique'' \<mapsto> JStr []))"
  by (simp add: example_engine_def example_fill_def attributes_of_def example_doc_def)

lemma unique_example_after_engine:
  "unique example_platform example_db ((attributes_of example_doc)(''patient_id_unique'' \<mapsto> JStr []))
     unique_spec =
     ([Query ''patient_id:x'', AllDocs [''r1'', ''r2'']], Result None (Some False))"
  by (simp add: unique_def x_exists_def unique_spec_simps key_after_engine example_db_def negate_def
      js_not_def x_getIntersection_def id_example example_fetch_def found_row_def truthy_num_def)

lemma iteratee_example_after_engine:
  "iteratee example_platform example_db ((attributes_of example_doc)(''patient_id_unique'' \<mapsto> JStr []))
     unique_spec [(''patient_id_unique'', True)] =
     ([Invoke unique_spec, Query ''patient_id:x'', AllDocs [''r1'', ''r2'']],
      [(''patient_id_unique'', False)], Done)"
  by (simp add: iteratee_def extra_validations_def unique_example_after_engine unique_spec_simps)

text \<open>
  Claim C4, evaluated at a failing input. The datastore holds another
  document without errors that has the patient id of the document. With the
  validation declared on the property \<open>patient_id\<close>, the rewriter registers
  the uniqueness check, the check runs and the document is reported as
  \<open>invalid_patient_id_unique\<close>. With the same rule declared on the property
  \<open>patient_unique_id\<close>, which does not end with \<open>_unique\<close> but holds it, the
  guard of the rewriter skips the spec on its first pass: no validator is
  registered or invoked, no request goes to the datastore, and the duplicate
  passes as valid.
\<close>

theorem validate_skips_unique_check:
  "validate example_engine example_platform example_db example_doc
     [spec_of ''patient_unique_id'' ''unique('patient_id')''] IgnAbsent =
     ([PupilValidate, ExtractErrors], Callback []) \<and>
   validate example_engine example_platform example_db example_doc
     [spec_of ''patient_id'' ''unique('patient_id')''] IgnAbsent =
     ([PupilValidate, Invoke unique_spec, Query ''patient_id:x'', AllDocs [''r1'', ''r2''],
       ExtractErrors],
      Callback [Descriptor ''invalid_patient_id_unique'' None])"
proof (intro conjI)
  have p: "parse example_engine = example_parse" by (simp add: example_engine_def)
  have r1: "getRules [spec_of ''patient_unique_id'' ''unique('patient_id')''] =
      [(''patient_unique_id'', ''unique('patient_id')'')]"
    by (simp add: getRules_def spec_of_simps)
  have s1: "run_series example_platform example_db
              ((attributes_of example_doc)(''patient_unique_id'' \<mapsto> JStr []))
              [spec_of ''patient_unique_id'' ''unique('patient_id')''] [(''patient_unique_id'', True)] =
            ([], [(''patient_unique_id'', True)], Done)"
    by (simp add: run_series_def iteratee_plain)
  have e1: "extractErrors [(''patient_unique_id'', True)] m IgnAbsent = []" for m
    by (simp add: extractErrors_def)
  show "validate example_engine example_platform example_db example_doc
     [spec_of ''patient_unique_id'' ''unique('patient_id')''] IgnAbsent =
     ([PupilValidate, ExtractErrors], Callback [])"
    by (simp add: validate_def p rewrite_contains_example r1 sync_contains_example s1 e1)
  have r2: "getRules [unique_spec] = [(''patient_id_unique'', ''unique('patient_id')'')]"
    by (simp add: getRules_def unique_spec_simps)
  have s2: "run_series example_platform example_db
              ((attributes_of example_doc)(''patient_id_unique'' \<mapsto> JStr []))
              [unique_spec] [(''patient_id_unique'', True)] =
            ([Invoke unique_spec, Query ''patient_id:x'', AllDocs [''r1'', ''r2'']],
             [(''patient_id_unique'', False)], Done)"
    by (simp add: run_series_def iteratee_example_after_engine)
  have m2: "getMessages example_engine [unique_spec] l = (\<lambda>_. None)" for l
    by (simp add: getMessages_def has_message_def unique_spec_simps)
  have e2: "extractErrors [(''patient_id_unique'', False)] (\<lambda>_. None) IgnAbsent =
      [Descriptor ''invalid_patient_id_unique'' None]"
    by (simp add: extractErrors_def ignore_list_def)
  show "validate example_engine example_platform example_db example_doc
     [spec_of ''patient_id'' ''unique('patient_id')''] IgnAbsent =
     ([PupilValidate, Invoke unique_spec, Query ''patient_id:x'', AllDocs [''r1'', ''r2''],
       ExtractErrors],
      Callback [Descriptor ''invalid_patient_id_unique'' None])"
    by (simp add: validate_def p rewrite_plain_example r2 sync_plain_example s2 m2 e2)
qed

subsection \<open>Rules that do not parse\<close>

lemma rewrite_errors: "snd (rewrite ps validations) = parse_errors ps validations"
  by (induction validations) (simp_all add: rewrite_def parse_errors_def rewrite_spec_def split: sum.splits)

lemma parse_errors_length:
  "length (parse_errors ps validations) = length (filter (\<lambda>v. isl (ps (rule v))) validations)"
  by (induction validations) (simp_all add: parse_errors_def split: sum.splits)

lemma parse_errors_member:
  "v \<in> set validations \<Longrightarrow> ps (rule v) = Inl e \<Longrightarrow>
   ''Error on pupil validations: '' @ e \<in> set (parse_errors ps validations)"
  by (force simp: parse_errors_def)

lemma parse_errors_single:
  "filter (\<lambda>v. isl (ps (rule v))) validations = [v] \<Longrightarrow> ps (rule v) = Inl e \<Longrightarrow>
   parse_errors ps validations = [''Error on pupil validations: '' @ e]"
proof (induction validations)
  case Nil
  then show ?case by simp
next
  case (Cons w ws)
  show ?case
  proof (cases "ps (rule w)")
    case (Inl e')
    with Cons.prems have w: "w = v" and rest: "filter (\<lambda>v. isl (ps (rule v))) ws = []" by simp_all
    have "length (parse_errors ps ws) = 0" using rest by (simp add: parse_errors_length)
    then have "parse_errors ps ws = []" by simp
    with w Cons.prems(2) show ?thesis by (simp add: parse_errors_def)
  next
    case (Inr es)
    with Cons show ?thesis by (simp add: parse_errors_def)
  qed
qed

lemma validate_parse_errors:
  "parse_errors (parse eng) validations \<noteq> [] \<Longrightarrow>
   validate eng pf db doc validations ig = ([], Callback (map Msg (parse_errors (parse eng) validations)))"
  using rewrite_errors [of "parse eng" validations]
  by (cases "rewrite (parse eng) validations") (simp add: validate_def)

lemma parse_example: "parse example_engine = example_parse"
  by (simp add: example_engine_def)

text \<open>
  Claim C6, as amended. If at least one rule of the validations does not
  parse, \<open>validate\<close> calls back with a list of strings that holds one entry
  \<open>Error on pupil validations: ...\<close> for every rule that does not parse, in
  the order of the validations, and so a single entry when exactly one rule
  fails. No field-level error is computed and no later stage runs: the event
  list is empty, with no evaluation by the grammar engine, no validator, no
  datastore request and no error reduction.
\<close>

theorem validate_parse_failure:
  assumes "v \<in> set validations" and "parse eng (rule v) = Inl e"
  shows "validate eng pf db doc validations ig =
           ([], Callback (map Msg (parse_errors (parse eng) validations))) \<and>
         Msg (''Error on pupil validations: '' @ e) \<in> set (map Msg (parse_errors (parse eng) validations)) \<and>
         length (parse_errors (parse eng) validations) =
           length (filter (\<lambda>v. isl (parse eng (rule v))) validations) \<and>
         1 \<le> length (parse_errors (parse eng) validations) \<and>
         (if filter (\<lambda>v. isl (parse eng (rule v))) validations = [v]
          then validate eng pf db doc validations ig =
                 ([], Callback [Msg (''Error on pupil validations: '' @ e)])
          else True)"
proof -
  have m: "''Error on pupil validations: '' @ e \<in> set (parse_errors (parse eng) validations)"
    using assms by (rule parse_errors_member)
  then have ne: "parse_errors (parse eng) validations \<noteq> []" by auto
  then have le: "1 \<le> length (parse_errors (parse eng) validations)"
    by (cases "parse_errors (parse eng) validations") simp_all
  have v: "validate eng pf db doc validations ig =
           ([], Callback (map Msg (parse_errors (parse eng) validations)))"
    using ne by (rule validate_parse_errors)
  have s: "validate eng pf db doc validations ig = ([], Callback [Msg (''Error on pupil validations: '' @ e)])"
    if "filter (\<lambda>v. isl (parse eng (rule v))) validations = [v]"
    using v parse_errors_single [OF that assms(2)] by simp
  from m have m': "Msg (''Error on pupil validations: '' @ e) \<in> set (map Msg (parse_errors (parse eng) validations))"
    by (simp only: set_map image_eqI [OF refl])
  show ?thesis using v m' le s parse_errors_length [of "parse eng" validations] by simp
qed

text \<open>
  The statement on two validations, the second of which has the rule \<open>)\<close>
  and does not parse: nothing runs, and the callback receives one string.
\<close>

theorem validate_parse_failure_witness:
  "spec_of ''name'' '')'' \<in> set [spec_of ''patient_id'' ''unique('patient_id')'', spec_of ''name'' '')''] \<and>
   parse example_engine (rule (spec_of ''name'' '')'')) = Inl example_exception \<and>
   fst (validate example_engine example_platform example_db example_doc
          [spec_of ''patient_id'' ''unique('patient_id')'', spec_of ''name'' '')''] IgnAbsent) = [] \<and>
   error_heads (snd (validate example_engine example_platform example_db example_doc
          [spec_of ''patient_id'' ''unique('patient_id')'', spec_of ''name'' '')''] IgnAbsent)) =
     [''Error on pupil validations: '']"
proof -
  let ?vs = "[spec_of ''patient_id'' ''unique('patient_id')'', spec_of ''name'' '')'']"
  have a: "spec_of ''name'' '')'' \<in> set ?vs" by simp
  have b: "parse example_engine (rule (spec_of ''name'' '')'')) = Inl example_exception"
    by (simp add: parse_example spec_of_simps example_parse_def)
  have c: "parse_errors (parse example_engine) ?vs =
      [''Error on pupil validations: '' @ example_exception]"
    by (simp add: parse_errors_def parse_example spec_of_simps example_parse_def)
  from validate_parse_failure [OF a b, of example_platform example_db example_doc IgnAbsent]
  have "validate example_engine example_platform example_db example_doc ?vs IgnAbsent =
      ([], Callback (map Msg (parse_errors (parse example_engine) ?vs)))"
    by (rule conjunct1)
  with c have "validate example_engine example_platform example_db example_doc ?vs IgnAbsent =
      ([], Callback [Msg (''Error on pupil validations: '' @ example_exception)])"
    by simp
  then have "fst (validate example_engine example_platform example_db example_doc ?vs IgnAbsent) = []"
    and "error_heads (snd (validate example_engine example_platform example_db example_doc ?vs
           IgnAbsent)) = [''Error on pupil validations: '']"
    by (simp_all add: error_heads_def)
  with a b show ?thesis by (intro conjI)
qed

text \<open>
  The claim C6 as it was written promises a single-element list. With two
  validations whose rule is \<open>)\<close>, the callback receives two strings: the
  loop over the validations goes on after a parse error and pushes one
  string for each.
\<close>

theorem two_parse_errors_counterexample:
  "fst (validate example_engine example_platform example_db example_doc
          [spec_of ''name'' '')'', spec_of ''patient_id'' '')''] IgnAbsent) = [] \<and>
   error_heads (snd (validate example_engine example_platform example_db example_doc
          [spec_of ''name'' '')'', spec_of ''patient_id'' '')''] IgnAbsent)) =
     [''Error on pupil validations: '', ''Error on pupil validations: '']"
  by (simp add: validate_def rewrite_def rewrite_spec_def parse_example spec_of_simps
      example_parse_def error_heads_def)

subsection \<open>The shared existence check\<close>

lemma async_map_all: "\<forall>x\<in>set xs. f x = Inr (g x) \<Longrightarrow> async_map f xs = Inr (map g xs)"
  by (induction xs) simp_all




















subsection \<open>The ISO week validator\<close>

lemma below_ten: "d < 10 \<Longrightarrow> d \<in> {0, 1, 2, 3, 4, 5, 6, 7, 8, 9::nat}"
  by auto

lemma digit_char_ok: "d < 10 \<Longrightarrow> is_digit (digit_chars ! d) \<and> digit_val (digit_chars ! d) = d"
  by (drule below_ten) (auto simp: is_digit_def digit_chars_def digit_val_def)

lemma show_nat_digits: "list_all is_digit (show_nat n)"
proof (induction n rule: show_nat.induct)
  case (1 n)
  show ?case
  proof (cases "n < 10")
    case True
    then show ?thesis by (subst show_nat.simps) (simp add: digit_char_ok)
  next
    case False
    with 1 show ?thesis by (subst show_nat.simps) (simp add: digit_char_ok)
  qed
qed

lemma show_nat_length:
  "length (show_nat n) = (if n < 10 then 1 else Suc (length (show_nat (n div 10))))"
  by (subst show_nat.simps) simp

lemma dec_snoc: "dec (s @ [c]) = 10 * dec s + digit_val c"
  by (simp add: dec_def)

lemma dec_show_nat: "dec (show_nat n) = n"
proof (induction n rule: show_nat.induct)
  case (1 n)
  show ?case
  proof (cases "n < 10")
    case True
    then show ?thesis by (subst show_nat.simps) (simp add: digit_char_ok dec_def)
  next
    case False
    with 1 show ?thesis by (subst show_nat.simps) (simp add: digit_char_ok dec_snoc)
  qed
qed

lemma show_nat_nonempty: "0 < length (show_nat n)"
  by (subst show_nat_length) simp

lemma show_nat_length_1: "length (show_nat n) = Suc 0 \<longleftrightarrow> n < 10"
  using show_nat_nonempty [of "n div 10"] by (subst show_nat_length) simp

lemma show_nat_length_2: "length (show_nat n) = 2 \<longleftrightarrow> 10 \<le> n \<and> n < 100"
proof -
  have a: "length (show_nat n) = (if n < 10 then 1 else Suc (length (show_nat (n div 10))))"
    by (rule show_nat_length)
  have b: "length (show_nat (n div 10)) = Suc 0 \<longleftrightarrow> n div 10 < 10"
    by (rule show_nat_length_1)
  have c: "n div 10 < 10 \<longleftrightarrow> n < 100" by (simp add: div_less_iff_less_mult)
  show ?thesis
  proof (cases "n < 10")
    case True
    with a show ?thesis by simp
  next
    case False
    with a have "length (show_nat n) = 2 \<longleftrightarrow> length (show_nat (n div 10)) = Suc 0" by simp
    with b c False show ?thesis by simp
  qed
qed

lemma show_nat_length_3: "length (show_nat n) = 3 \<longleftrightarrow> 100 \<le> n \<and> n < 1000"
proof -
  have a: "length (show_nat n) = (if n < 10 then 1 else Suc (length (show_nat (n div 10))))"
    by (rule show_nat_length)
  have b: "length (show_nat (n div 10)) = 2 \<longleftrightarrow> 10 \<le> n div 10 \<and> n div 10 < 100"
    by (rule show_nat_length_2)
  have c: "10 \<le> n div 10 \<and> n div 10 < 100 \<longleftrightarrow> 100 \<le> n \<and> n < 1000"
    by (simp add: div_less_iff_less_mult less_eq_div_iff_mult_less_eq)
  show ?thesis
  proof (cases "n < 10")
    case True
    with a show ?thesis by simp
  next
    case False
    with a have "length (show_nat n) = 3 \<longleftrightarrow> length (show_nat (n div 10)) = 2" by simp
    with b c show ?thesis by simp
  qed
qed

lemma show_nat_length_4: "length (show_nat n) = 4 \<longleftrightarrow> 1000 \<le> n \<and> n < 10000"
proof -
  have a: "length (show_nat n) = (if n < 10 then 1 else Suc (length (show_nat (n div 10))))"
    by (rule show_nat_length)
  have b: "length (show_nat (n div 10)) = 3 \<longleftrightarrow> 100 \<le> n div 10 \<and> n div 10 < 1000"
    by (rule show_nat_length_3)
  have c: "100 \<le> n div 10 \<and> n div 10 < 1000 \<longleftrightarrow> 1000 \<le> n \<and> n < 10000"
    by (simp add: div_less_iff_less_mult less_eq_div_iff_mult_less_eq)
  show ?thesis
  proof (cases "n < 10")
    case True
    with a show ?thesis by simp
  next
    case False
    with a have "length (show_nat n) = 4 \<longleftrightarrow> length (show_nat (n div 10)) = 3" by simp
    with b c show ?thesis by simp
  qed
qed

lemma minus_no_digit: "\<not> is_digit CHR ''-''"
  by (simp add: is_digit_def digit_chars_def)

lemma week_number_test: "test_d12 (js_String w) \<longleftrightarrow> week_number w \<noteq> None"
proof (cases w)
  case (JNum n)
  then show ?thesis
  proof (cases "n < 0")
    case True
    with JNum show ?thesis by (simp add: test_d12_def show_int_def minus_no_digit)
  next
    case False
    then have "nat n < 10 \<or> 10 \<le> nat n \<and> nat n < 100 \<longleftrightarrow> n \<le> 99" by auto
    with JNum False show ?thesis
      by (simp add: test_d12_def show_int_def show_nat_digits show_nat_length_1 show_nat_length_2)
  qed
qed (simp_all add: test_d12_def is_digit_def digit_chars_def)

lemma week_number_dec: "week_number w = Some n \<Longrightarrow> dec (js_String w) = n"
  by (cases w) (auto simp: show_int_def dec_show_nat split: if_splits)

lemma year_number_test: "test_d4 (js_String y) \<longleftrightarrow> year_number y \<noteq> None"
proof (cases y)
  case (JNum n)
  then show ?thesis
  proof (cases "n < 0")
    case True
    with JNum show ?thesis by (simp add: test_d4_def show_int_def minus_no_digit)
  next
    case False
    then have "1000 \<le> nat n \<and> nat n < 10000 \<longleftrightarrow> 1000 \<le> n \<and> n \<le> 9999" by auto
    with JNum False show ?thesis
      by (simp add: test_d4_def show_int_def show_nat_digits show_nat_length_4)
  qed
qed (simp_all add: test_d4_def is_digit_def digit_chars_def)

lemma year_number_dec: "year_number y = Some n \<Longrightarrow> dec (js_String y) = n"
  by (cases y) (auto simp: show_int_def dec_show_nat split: if_splits)

lemma isValidISOWeek_spec: "isValidISOWeek pf w (js_String y) = iso_week_valid pf w y"
proof (cases "week_number w")
  case None
  then show ?thesis by (simp add: isValidISOWeek_def iso_week_valid_def week_number_test)
next
  case (Some n)
  note wn = this
  show ?thesis
  proof (cases "year_number y")
    case None
    with wn show ?thesis by (simp add: isValidISOWeek_def iso_week_valid_def year_number_test)
  next
    case (Some m)
    with wn show ?thesis
      by (simp add: isValidISOWeek_def iso_week_valid_def year_number_test week_number_test
          week_number_dec year_number_dec)
  qed
qed

lemma isValidISOWeek_current:
  "isValidISOWeek pf w (show_int c) = iso_week_valid pf w (JNum c)"
  using isValidISOWeek_spec [of pf w "JNum c"] by simp

lemma isISOWeek_current_year:
  assumes "funcArgs v = [wk] \<or> funcArgs v = wk # [] # rest"
  shows "isISOWeek pf doc v =
        ([], Result None (Some (case doc wk of
                                  None \<Rightarrow> False
                                | Some w \<Rightarrow> iso_week_valid pf w (JNum (currentYear pf)))))"
proof -
  have a: "arg (funcArgs v) 0 = wk" using assms by (auto simp: arg_def)
  have y: "(if 1 < length (funcArgs v) \<and> funcArgs v ! 1 \<noteq> []
            then Some (funcArgs v ! 1) else None) = None"
    using assms by auto
  show ?thesis
    unfolding isISOWeek_def Let_def a y
    by (simp add: isValidISOWeek_current split: option.splits)
qed

lemma isISOWeek_named_year:
  assumes "funcArgs v = wk # yr # rest" and "yr \<noteq> []"
  shows "isISOWeek pf doc v =
        ([], Result None (Some (case doc wk of
                                  None \<Rightarrow> False
                                | Some w \<Rightarrow>
                                    (case doc yr of
                                       None \<Rightarrow> False
                                     | Some y \<Rightarrow> iso_week_valid pf w y))))"
proof -
  have a: "arg (funcArgs v) 0 = wk" using assms by (simp add: arg_def)
  have y: "(if 1 < length (funcArgs v) \<and> funcArgs v ! 1 \<noteq> []
            then Some (funcArgs v ! 1) else None) = Some yr"
    using assms by simp
  show ?thesis
    unfolding isISOWeek_def Let_def a y
    by (simp add: isValidISOWeek_spec split: option.splits)
qed

lemma dec_53: "dec ''53'' = 53"
  by (simp add: dec_def digit_val_def)

lemma dec_2015: "dec ''2015'' = 2015" "dec ''2016'' = 2016"
  by (simp_all add: dec_def digit_val_def)

lemma week_53: "week_number (JStr ''53'') = Some 53"
  by (simp add: is_digit_def digit_chars_def dec_53)

lemma year_2015: "year_number (JStr ''2015'') = Some 2015" "year_number (JStr ''2016'') = Some 2016"
  by (simp_all add: is_digit_def digit_chars_def dec_2015)

lemma year_2026: "year_number (JNum 2026) = Some 2026"
  by simp

text \<open>
  Claim C8, as amended. \<open>isISOWeek\<close> hands over no error, and \<open>true\<close> iff
  the designated week member is there and its value, in its string form, is
  one or two digits (a string of one or two digits, or a whole number from 0
  to 99) whose number is between 1 and the number of ISO weeks of the year,
  where the year is the value of the named year member, which must be there
  and be exactly four digits in its string form, or else the current year.
  With the week member, or a named year member, absent from the document it
  hands over \<open>false\<close> and no error.
\<close>

theorem isISOWeek_true_iff:
  "(funcArgs v = [wk] \<or> funcArgs v = wk # [] # rest \<longrightarrow>
      isISOWeek pf doc v =
        ([], Result None (Some (case doc wk of
                                  None \<Rightarrow> False
                                | Some w \<Rightarrow> iso_week_valid pf w (JNum (currentYear pf)))))) \<and>
   (funcArgs v = wk # yr # rest \<and> yr \<noteq> [] \<longrightarrow>
      isISOWeek pf doc v =
        ([], Result None (Some (case doc wk of
                                  None \<Rightarrow> False
                                | Some w \<Rightarrow>
                                    (case doc yr of
                                       None \<Rightarrow> False
                                     | Some y \<Rightarrow> iso_week_valid pf w y)))))"
  using isISOWeek_current_year [of v wk rest pf doc] isISOWeek_named_year [of v wk yr rest pf doc]
  by blast

text \<open>
  The statement on the documents of the specification: week 53 of 2015 is
  valid, week 53 of 2016 is not, a document without the week member is not,
  and week 53 of the current year 2026 is.
\<close>

theorem isISOWeek_true_iff_witness:
  "funcArgs iso_spec = ''week'' # ''year'' # [] \<and> ''year'' \<noteq> [] \<and>
   isISOWeek example_platform [''week'' \<mapsto> JStr ''53'', ''year'' \<mapsto> JStr ''2015''] iso_spec =
     ([], Result None (Some True)) \<and>
   isISOWeek example_platform [''week'' \<mapsto> JStr ''53'', ''year'' \<mapsto> JStr ''2016''] iso_spec =
     ([], Result None (Some False)) \<and>
   isISOWeek example_platform [''year'' \<mapsto> JStr ''2015''] iso_spec = ([], Result None (Some False)) \<and>
   funcArgs iso_week_only_spec = [''week''] \<and>
   isISOWeek example_platform [''week'' \<mapsto> JStr ''53''] iso_week_only_spec =
     ([], Result None (Some True))"
proof -
  have a: "funcArgs iso_spec = ''week'' # ''year'' # [] \<and> ''year'' \<noteq> []"
    by (simp add: iso_spec_def)
  have b: "funcArgs iso_week_only_spec = [''week''] \<or> funcArgs iso_week_only_spec = ''week'' # [] # []"
    by (simp add: iso_week_only_spec_def)
  note t = isISOWeek_true_iff [THEN conjunct2, THEN mp, OF a, of example_platform]
  note u = isISOWeek_true_iff [THEN conjunct1, THEN mp, OF b, of example_platform]
  have 1: "isISOWeek example_platform [''week'' \<mapsto> JStr ''53'', ''year'' \<mapsto> JStr ''2015''] iso_spec =
     ([], Result None (Some True))"
    using t [of "[''week'' \<mapsto> JStr ''53'', ''year'' \<mapsto> JStr ''2015'']"]
    by (simp add: iso_week_valid_def week_53 year_2015 example_platform_def
        del: week_number.simps year_number.simps)
  have 2: "isISOWeek example_platform [''week'' \<mapsto> JStr ''53'', ''year'' \<mapsto> JStr ''2016''] iso_spec =
     ([], Result None (Some False))"
    using t [of "[''week'' \<mapsto> JStr ''53'', ''year'' \<mapsto> JStr ''2016'']"]
    by (simp add: iso_week_valid_def week_53 year_2015 example_platform_def
        del: week_number.simps year_number.simps)
  have 3: "isISOWeek example_platform [''year'' \<mapsto> JStr ''2015''] iso_spec = ([], Result None (Some False))"
    using t [of "[''year'' \<mapsto> JStr ''2015'']"] by simp
  have 4: "isISOWeek example_platform [''week'' \<mapsto> JStr ''53''] iso_week_only_spec =
     ([], Result None (Some True))"
    using u [of "[''week'' \<mapsto> JStr ''53'']"]
    by (simp add: iso_week_valid_def week_53 year_2026 example_platform_def
        del: week_number.simps year_number.simps)
  from a have a1: "funcArgs iso_spec = ''week'' # ''year'' # []" and a2: "''year'' \<noteq> []" by simp_all
  have b1: "funcArgs iso_week_only_spec = [''week'']" by (simp add: iso_week_only_spec_def)
  from a1 a2 1 2 3 b1 4 show ?thesis by (intro conjI)
qed

text \<open>
  The claim C8 as it was written asks for a string. A week member holding
  the number 5, which is no string, is accepted: \<open>RegExp.test\<close> and the
  comparisons convert their operand.
\<close>

theorem numeric_week_counterexample:
  "isISOWeek example_platform [''week'' \<mapsto> JNum 5, ''year'' \<mapsto> JStr ''2015''] iso_spec =
     ([], Result None (Some True))"
  using isISOWeek_named_year [of iso_spec "''week''" "''year''" "[]" example_platform
      "[''week'' \<mapsto> JNum 5, ''year'' \<mapsto> JStr ''2015'']"]
  by (simp add: iso_spec_def iso_week_valid_def year_2015 example_platform_def
      del: year_number.simps)

end
